theory Spec2Isabelle
  imports Complex_Main
begin

section \<open>TMDB data fetcher (\<^verbatim>\<open>fetch_data.py\<close>): data model\<close>

text \<open>
  The script handles parsed JSON throughout: the value returned by \<^verbatim>\<open>response.json()\<close>,
  the discovery items, the detail payloads and the output document are all Python values
  built from \<^verbatim>\<open>None\<close>, booleans, numbers, strings, lists and dicts. A dict is an association
  list in insertion order. Finite floats are modelled as rationals; strings are byte strings
  (ASCII).
\<close>

datatype json =
    JNull
  | JBool bool
  | JInt int
  | JFloat rat
  | JStr string
  | JList "json list"
  | JObj "(string \<times> json) list"

text \<open>Every exception the script can raise; none of them is caught.\<close>

datatype error =
    ValueError
  | KeyError
  | TypeError
  | AttributeError
  | ConnectionError
  | HTTPError
  | JSONDecodeError

subsection \<open>Python operations on parsed JSON\<close>

text \<open>Truth value of a Python object, as tested by \<^verbatim>\<open>if\<close> and \<^verbatim>\<open>and\<close>.\<close>

fun truthy :: "json \<Rightarrow> bool" where
  "truthy JNull = False"
| "truthy (JBool b) = b"
| "truthy (JInt i) = (i \<noteq> 0)"
| "truthy (JFloat r) = (r \<noteq> 0)"
| "truthy (JStr s) = (s \<noteq> [])"
| "truthy (JList xs) = (xs \<noteq> [])"
| "truthy (JObj kvs) = (kvs \<noteq> [])"

text \<open>\<^verbatim>\<open>v.get(k, d)\<close>: only a dict has the method.\<close>

fun dict_get :: "json \<Rightarrow> string \<Rightarrow> json \<Rightarrow> error + json" where
  "dict_get (JObj kvs) k d = Inr (case map_of kvs k of None \<Rightarrow> d | Some v \<Rightarrow> v)"
| "dict_get _ k d = Inl AttributeError"

text \<open>\<^verbatim>\<open>v[k]\<close> with a string key \<open>k\<close>.\<close>

fun subscript :: "json \<Rightarrow> string \<Rightarrow> error + json" where
  "subscript (JObj kvs) k = (case map_of kvs k of None \<Rightarrow> Inl KeyError | Some v \<Rightarrow> Inr v)"
| "subscript _ k = Inl TypeError"

text \<open>Substring test, for \<^verbatim>\<open>k in v\<close> on a string \<open>v\<close>.\<close>

fun is_prefix :: "string \<Rightarrow> string \<Rightarrow> bool" where
  "is_prefix [] ys = True"
| "is_prefix (x # xs) [] = False"
| "is_prefix (x # xs) (y # ys) = (x = y \<and> is_prefix xs ys)"

fun is_substring :: "string \<Rightarrow> string \<Rightarrow> bool" where
  "is_substring xs [] = (xs = [])"
| "is_substring xs (y # ys) = (is_prefix xs (y # ys) \<or> is_substring xs ys)"

text \<open>\<^verbatim>\<open>k in v\<close> with a string \<open>k\<close>.\<close>

fun contains :: "string \<Rightarrow> json \<Rightarrow> error + bool" where
  "contains k (JObj kvs) = Inr (map_of kvs k \<noteq> None)"
| "contains k (JList xs) = Inr (JStr k \<in> set xs)"
| "contains k (JStr s) = Inr (is_substring k s)"
| "contains k _ = Inl TypeError"

text \<open>The elements a \<^verbatim>\<open>for\<close> loop, a comprehension or \<^verbatim>\<open>list.extend\<close> draws from a value.\<close>

fun iterate :: "json \<Rightarrow> error + json list" where
  "iterate (JList xs) = Inr xs"
| "iterate (JObj kvs) = Inr (map (\<lambda>kv. JStr (fst kv)) kvs)"
| "iterate (JStr s) = Inr (map (\<lambda>c. JStr [c]) s)"
| "iterate _ = Inl TypeError"

text \<open>The slice \<^verbatim>\<open>v[:3]\<close>.\<close>

fun slice3 :: "json \<Rightarrow> error + json" where
  "slice3 (JList xs) = Inr (JList (take 3 xs))"
| "slice3 (JStr s) = Inr (JStr (take 3 s))"
| "slice3 _ = Inl TypeError"

text \<open>\<^verbatim>\<open>', '.join(xs)\<close>: every element must be a string.\<close>

fun join :: "json list \<Rightarrow> error + string" where
  "join [] = Inr []"
| "join [JStr s] = Inr s"
| "join (JStr s # x # xs) = (case join (x # xs) of Inl e \<Rightarrow> Inl e | Inr r \<Rightarrow> Inr (s @ '', '' @ r))"
| "join (_ # xs) = Inl TypeError"

text \<open>Numeric value of a number (booleans are the integers 0 and 1 in Python).\<close>

fun py_num :: "json \<Rightarrow> rat option" where
  "py_num (JInt i) = Some (of_int i)"
| "py_num (JFloat r) = Some r"
| "py_num (JBool b) = Some (if b then 1 else 0)"
| "py_num _ = None"

text \<open>Sequencing of computations that may raise.\<close>

definition ebind :: "error + 'a \<Rightarrow> ('a \<Rightarrow> error + 'b) \<Rightarrow> error + 'b" where
  "ebind m f = (case m of Inl e \<Rightarrow> Inl e | Inr x \<Rightarrow> f x)"

fun emap :: "('a \<Rightarrow> error + 'b) \<Rightarrow> 'a list \<Rightarrow> error + 'b list" where
  "emap f [] = Inr []"
| "emap f (x # xs) = ebind (f x) (\<lambda>y. ebind (emap f xs) (\<lambda>ys. Inr (y # ys)))"

text \<open>Decimal rendering of an integer, as an f-string does it.\<close>

definition digit_char :: "nat \<Rightarrow> char" where
  "digit_char d = char_of (48 + d)"

fun digits :: "nat \<Rightarrow> string" where
  "digits n = (if n < 10 then [digit_char n] else digits (n div 10) @ [digit_char (n mod 10)])"

declare digits.simps [simp del]

definition str_int :: "int \<Rightarrow> string" where
  "str_int i = (if i < 0 then CHR ''-'' # digits (nat (- i)) else digits (nat i))"

section \<open>Environment and program state\<close>

text \<open>
  What the network answers to one request: the transport fails, or a response arrives with a
  status code and a body, the body being parsed JSON or text that \<^verbatim>\<open>response.json()\<close>
  rejects.
\<close>

datatype http_result =
    Transport_Failure
  | Response nat "json option"

text \<open>
  The environment of a run. \<open>respond n url\<close> is the answer to the request number \<open>n\<close>
  (counted from 0) when it asks for \<open>url\<close>; \<open>latency n\<close> is the time that exchange takes,
  \<open>oversleep n\<close> the time by which the sleep before it lasts longer than asked.
  \<open>str_of\<close> stands for Python's \<^verbatim>\<open>str()\<close> on values that are not strings, and
  \<open>isoformat\<close>, \<open>strftime_ymd\<close> for the renderings of a clock reading by
  \<^verbatim>\<open>datetime\<close>.
\<close>

record env =
  tmdb_token :: "string option"
  respond :: "nat \<Rightarrow> string \<Rightarrow> http_result"
  latency :: "nat \<Rightarrow> rat"
  oversleep :: "nat \<Rightarrow> rat"
  str_of :: "json \<Rightarrow> string"
  isoformat :: "rat \<Rightarrow> string"
  strftime_ymd :: "rat \<Rightarrow> string"

text \<open>
  The mutable state: the wall clock, the global \<^verbatim>\<open>last_request_time\<close>, the URLs
  requested so far, and the content of \<^verbatim>\<open>data.json\<close> (\<open>None\<close>: no such file).
\<close>

record state =
  clock :: rat
  last_request_time :: rat
  sent :: "string list"
  data_json :: "json option"

type_synonym 'a prog = "state \<Rightarrow> (error + 'a) \<times> state"

definition bind :: "'a prog \<Rightarrow> ('a \<Rightarrow> 'b prog) \<Rightarrow> 'b prog" where
  "bind m f s = (case m s of (Inl e, s') \<Rightarrow> (Inl e, s') | (Inr x, s') \<Rightarrow> f x s')"

definition lift :: "error + 'a \<Rightarrow> 'a prog" where
  "lift r s = (r, s)"

subsection \<open>Configuration\<close>

definition MIN_VOTES :: int where "MIN_VOTES = 1"
definition MIN_RATING :: rat where "MIN_RATING = 6"
definition START_YEAR :: int where "START_YEAR = 2024"
definition START_MONTH :: int where "START_MONTH = 2"
definition MAX_PAGES_PER_TYPE :: int where "MAX_PAGES_PER_TYPE = 500"
definition REQUESTS_PER_10_SEC :: rat where "REQUESTS_PER_10_SEC = 40"
definition DELAY_BETWEEN_REQUESTS :: rat where "DELAY_BETWEEN_REQUESTS = 10 / REQUESTS_PER_10_SEC"
definition API_BASE :: string where "API_BASE = ''https://api.themoviedb.org/3''"
definition START_DATE_STR :: string where "START_DATE_STR = ''2024-02-01''"

section \<open>Rate-limited request\<close>

text \<open>
  \<^verbatim>\<open>response.raise_for_status()\<close> of the requests library raises for the status codes
  400 to 599 and for no other.
\<close>

definition raise_for_status :: "nat \<Rightarrow> bool" where
  "raise_for_status status = (400 \<le> status \<and> status < 600)"

text \<open>The part of \<^verbatim>\<open>rate_limited_get\<close> before the request: wait, then stamp the time.\<close>

definition acquire :: "env \<Rightarrow> state \<Rightarrow> state" where
  "acquire e s =
    (let elapsed = clock s - last_request_time s;
         s1 = (if elapsed < DELAY_BETWEEN_REQUESTS
               then s\<lparr>clock := clock s + (DELAY_BETWEEN_REQUESTS - elapsed)
                                  + oversleep e (length (sent s))\<rparr>
               else s)
     in s1\<lparr>last_request_time := clock s1\<rparr>)"

definition rate_limited_get :: "env \<Rightarrow> string \<Rightarrow> json prog" where
  "rate_limited_get e url s =
    (let n = length (sent s);
         s2 = acquire e s;
         s3 = s2\<lparr>clock := clock s2 + latency e n, sent := sent s2 @ [url]\<rparr>
     in case respond e n url of
          Transport_Failure \<Rightarrow> (Inl ConnectionError, s3)
        | Response status body \<Rightarrow>
            if raise_for_status status then (Inl HTTPError, s3)
            else (case body of None \<Rightarrow> (Inl JSONDecodeError, s3) | Some j \<Rightarrow> (Inr j, s3)))"

section \<open>Fetching all pages\<close>

definition page_url :: "string \<Rightarrow> int \<Rightarrow> string" where
  "page_url url page = url @ ''&page='' @ str_int page"

text \<open>
  The loop test \<^verbatim>\<open>page <= min(total_pages, max_pages)\<close>. \<open>total_pages\<close> is whatever
  the last response carried; comparing a number with a value that is not one raises.
\<close>

definition loop_test :: "int \<Rightarrow> json \<Rightarrow> int \<Rightarrow> error + bool" where
  "loop_test page total_pages max_pages =
    (case py_num total_pages of
       None \<Rightarrow> Inl TypeError
     | Some t \<Rightarrow> Inr (of_int page \<le> (if of_int max_pages < t then of_int max_pages else t)))"

text \<open>
  What the loop body does with a response: the new accumulator and the new
  \<open>total_pages\<close>.
\<close>

definition absorb :: "json \<Rightarrow> json list \<Rightarrow> json \<Rightarrow> error + (json list \<times> json)" where
  "absorb data all_results total_pages =
    ebind (contains ''results'' data) (\<lambda>has.
      if has then
        ebind (subscript data ''results'') (\<lambda>r.
        ebind (iterate r) (\<lambda>items.
        ebind (dict_get data ''total_pages'' (JInt 1)) (\<lambda>tp.
          Inr (all_results @ items, tp))))
      else Inr (all_results, total_pages))"

function fetch_loop ::
  "env \<Rightarrow> string \<Rightarrow> int \<Rightarrow> int \<Rightarrow> json \<Rightarrow> json list \<Rightarrow> json list prog" where
  "fetch_loop e url max_pages page total_pages all_results s =
    (case loop_test page total_pages max_pages of
       Inl err \<Rightarrow> (Inl err, s)
     | Inr continue \<Rightarrow>
         if continue then
           (case rate_limited_get e (page_url url page) s of
              (Inl err, s') \<Rightarrow> (Inl err, s')
            | (Inr data, s') \<Rightarrow>
                (case absorb data all_results total_pages of
                   Inl err \<Rightarrow> (Inl err, s')
                 | Inr (all_results', total_pages') \<Rightarrow>
                     fetch_loop e url max_pages (page + 1) total_pages' all_results' s'))
         else (Inr all_results, s))"
  by pat_completeness auto

termination
  by (relation "measure (\<lambda>(e, url, max_pages, page, total_pages, all_results, s).
                   nat (max_pages + 1 - page))")
     (auto simp: loop_test_def split: option.splits if_splits)

declare fetch_loop.simps [simp del]

definition fetch_all_pages :: "env \<Rightarrow> string \<Rightarrow> int \<Rightarrow> json list prog" where
  "fetch_all_pages e url max_pages = fetch_loop e url max_pages 1 (JInt 1) []"


section \<open>Detail enrichment\<close>

text \<open>
  How an f-string renders a value: a string as itself, \<^verbatim>\<open>None\<close>, booleans and integers
  as Python prints them, anything else as the environment's \<open>str_of\<close> says.
\<close>

definition py_format :: "env \<Rightarrow> json \<Rightarrow> string" where
  "py_format e v =
    (case v of
       JStr s \<Rightarrow> s
     | JInt i \<Rightarrow> str_int i
     | JNull \<Rightarrow> ''None''
     | JBool b \<Rightarrow> (if b then ''True'' else ''False'')
     | _ \<Rightarrow> str_of e v)"

definition details_url :: "env \<Rightarrow> json \<Rightarrow> string \<Rightarrow> string" where
  "details_url e item_id media_type =
    API_BASE @ ''/'' @ media_type @ ''/'' @ py_format e item_id
      @ ''?append_to_response=credits,watch/providers''"

definition fetch_item_details :: "env \<Rightarrow> json \<Rightarrow> string \<Rightarrow> json prog" where
  "fetch_item_details e item_id media_type = rate_limited_get e (details_url e item_id media_type)"

text \<open>
  \<^verbatim>\<open>next((p for p in crew if p.get('job') == 'Director'), None)\<close>: the generator is
  lazy, so the entries after the first director are never looked at.
\<close>

fun first_director :: "json list \<Rightarrow> error + json option" where
  "first_director [] = Inr None"
| "first_director (p # ps) =
    ebind (dict_get p ''job'' JNull) (\<lambda>job.
      if job = JStr ''Director'' then Inr (Some p) else first_director ps)"

definition extract_director :: "json \<Rightarrow> error + json" where
  "extract_director details =
    ebind (dict_get details ''credits'' JNull) (\<lambda>credits.
      if truthy credits then
        ebind (dict_get credits ''crew'' JNull) (\<lambda>crew.
          if truthy crew then
            ebind (iterate crew) (\<lambda>people.
            ebind (first_director people) (\<lambda>director_person.
              case director_person of
                None \<Rightarrow> Inr (JStr ''N/A'')
              | Some p \<Rightarrow> if truthy p then subscript p ''name'' else Inr (JStr ''N/A'')))
          else Inr (JStr ''N/A''))
      else Inr (JStr ''N/A''))"

definition extract_actors :: "json \<Rightarrow> error + json" where
  "extract_actors details =
    ebind (dict_get details ''credits'' JNull) (\<lambda>credits.
      if truthy credits then
        ebind (dict_get credits ''cast'' JNull) (\<lambda>cast.
          if truthy cast then
            ebind (slice3 cast) (\<lambda>top.
            ebind (iterate top) (\<lambda>people.
            ebind (emap (\<lambda>actor. subscript actor ''name'') people) (\<lambda>top_actors.
              if top_actors \<noteq> [] then ebind (join top_actors) (\<lambda>joined. Inr (JStr joined))
              else Inr (JStr ''N/A''))))
          else Inr (JStr ''N/A''))
      else Inr (JStr ''N/A''))"

definition IMAGE_BASE :: string where
  "IMAGE_BASE = ''https://image.tmdb.org/t/p/original''"

definition provider_entry :: "env \<Rightarrow> json \<Rightarrow> error + json" where
  "provider_entry e p =
    ebind (subscript p ''provider_name'') (\<lambda>name.
    ebind (subscript p ''logo_path'') (\<lambda>logo_path.
      Inr (JObj [(''name'', name), (''logo'', JStr (IMAGE_BASE @ py_format e logo_path))])))"

definition extract_streaming :: "env \<Rightarrow> json \<Rightarrow> error + json list" where
  "extract_streaming e details =
    ebind (dict_get details ''watch/providers'' (JObj [])) (\<lambda>wp.
    ebind (dict_get wp ''results'' (JObj [])) (\<lambda>regions.
    ebind (dict_get regions ''US'' (JObj [])) (\<lambda>providers.
    ebind (dict_get providers ''flatrate'' JNull) (\<lambda>flatrate.
      if truthy flatrate then ebind (iterate flatrate) (emap (provider_entry e))
      else Inr []))))"

text \<open>The joined genre string and the unjoined list of names.\<close>

definition extract_genres :: "json \<Rightarrow> error + (json \<times> json list)" where
  "extract_genres details =
    ebind (dict_get details ''genres'' JNull) (\<lambda>gs.
      if truthy gs then
        ebind (iterate gs) (\<lambda>entries.
        ebind (emap (\<lambda>g. subscript g ''name'') entries) (\<lambda>genre_list.
          if genre_list \<noteq> [] then ebind (join genre_list) (\<lambda>joined. Inr (JStr joined, genre_list))
          else Inr (JStr ''N/A'', genre_list)))
      else Inr (JStr ''N/A'', []))"

definition EXCLUDED_GENRES :: "string list" where
  "EXCLUDED_GENRES = [''Animation'', ''Music'', ''Documentary'', ''Kids'', ''Reality'']"

definition excluded :: "json list \<Rightarrow> bool" where
  "excluded genre_list = list_ex (\<lambda>g. g \<in> set (map JStr EXCLUDED_GENRES)) genre_list"

subsection \<open>Year of a date\<close>

text \<open>
  \<^verbatim>\<open>datetime.strptime(s, '%Y-%m-%d').year\<close>, as CPython's \<^verbatim>\<open>_strptime\<close> reads the format:
  four digits, a month \<^verbatim>\<open>1[0-2]|0[1-9]|[1-9]\<close>, a day
  \<^verbatim>\<open>3[01]|[12]\d|0[1-9]|[1-9]| [1-9]\<close>, nothing after it, and a date that exists.
\<close>

definition is_digit :: "char \<Rightarrow> bool" where
  "is_digit c = (c \<in> set ''0123456789'')"

definition digit_val :: "char \<Rightarrow> int" where
  "digit_val c = int (of_char c) - 48"

definition is_pos_digit :: "char \<Rightarrow> bool" where
  "is_pos_digit c = (is_digit c \<and> c \<noteq> CHR ''0'')"

fun parse_month :: "string \<Rightarrow> (int \<times> string) option" where
  "parse_month (a # b # rest) =
    (if a = CHR ''1'' \<and> (b = CHR ''0'' \<or> b = CHR ''1'' \<or> b = CHR ''2'')
       then Some (10 + digit_val b, rest)
     else if a = CHR ''0'' \<and> is_pos_digit b then Some (digit_val b, rest)
     else if is_pos_digit a then Some (digit_val a, b # rest)
     else None)"
| "parse_month [a] = (if is_pos_digit a then Some (digit_val a, []) else None)"
| "parse_month [] = None"

fun parse_day :: "string \<Rightarrow> (int \<times> string) option" where
  "parse_day (a # b # rest) =
    (if a = CHR ''3'' \<and> (b = CHR ''0'' \<or> b = CHR ''1'') then Some (30 + digit_val b, rest)
     else if (a = CHR ''1'' \<or> a = CHR ''2'') \<and> is_digit b
       then Some (10 * digit_val a + digit_val b, rest)
     else if a = CHR ''0'' \<and> is_pos_digit b then Some (digit_val b, rest)
     else if is_pos_digit a then Some (digit_val a, b # rest)
     else if a = CHR '' '' \<and> is_pos_digit b then Some (digit_val b, rest)
     else None)"
| "parse_day [a] = (if is_pos_digit a then Some (digit_val a, []) else None)"
| "parse_day [] = None"

fun parse_ymd :: "string \<Rightarrow> (int \<times> int \<times> int) option" where
  "parse_ymd (y1 # y2 # y3 # y4 # sep # rest) =
    (if is_digit y1 \<and> is_digit y2 \<and> is_digit y3 \<and> is_digit y4 \<and> sep = CHR ''-'' then
       (case parse_month rest of
          None \<Rightarrow> None
        | Some (m, rest1) \<Rightarrow>
            (case rest1 of
               [] \<Rightarrow> None
             | sep1 # rest2 \<Rightarrow>
                 if sep1 = CHR ''-'' then
                   (case parse_day rest2 of
                      None \<Rightarrow> None
                    | Some (d, rest3) \<Rightarrow>
                        if rest3 = [] then
                          Some (1000 * digit_val y1 + 100 * digit_val y2 + 10 * digit_val y3
                                  + digit_val y4, m, d)
                        else None)
                 else None))
     else None)"
| "parse_ymd _ = None"

definition isleap :: "int \<Rightarrow> bool" where
  "isleap y = (y mod 4 = 0 \<and> (y mod 100 \<noteq> 0 \<or> y mod 400 = 0))"

definition days_in_month :: "int \<Rightarrow> int \<Rightarrow> int" where
  "days_in_month y m =
    (if m = 2 then (if isleap y then 29 else 28)
     else if m = 4 \<or> m = 6 \<or> m = 9 \<or> m = 11 then 30
     else 31)"

definition strptime_year :: "json \<Rightarrow> error + json" where
  "strptime_year v =
    (case v of
       JStr s \<Rightarrow>
         (case parse_ymd s of
            None \<Rightarrow> Inl ValueError
          | Some (y, m, d) \<Rightarrow>
              if 1 \<le> y \<and> d \<le> days_in_month y m then Inr (JInt y) else Inl ValueError)
     | _ \<Rightarrow> Inl TypeError)"

text \<open>
  The conditional expression
  \<^verbatim>\<open>strptime(item[key], '%Y-%m-%d').year if item.get(key) else None\<close>.
\<close>

definition year_of :: "json \<Rightarrow> string \<Rightarrow> error + json" where
  "year_of item key =
    ebind (dict_get item key JNull) (\<lambda>d.
      if truthy d then ebind (subscript item key) strptime_year else Inr JNull)"

subsection \<open>Records\<close>

definition movie_record :: "json \<Rightarrow> json \<Rightarrow> json \<Rightarrow> json \<Rightarrow> json list \<Rightarrow> error + json" where
  "movie_record movie director actors genres streaming =
    ebind (subscript movie ''id'') (\<lambda>ident.
    ebind (subscript movie ''title'') (\<lambda>title.
    ebind (dict_get movie ''overview'' (JStr [])) (\<lambda>overview.
    ebind (dict_get movie ''poster_path'' JNull) (\<lambda>poster_path.
    ebind (dict_get movie ''release_date'' JNull) (\<lambda>release_date.
    ebind (year_of movie ''release_date'') (\<lambda>year.
    ebind (subscript movie ''vote_average'') (\<lambda>vote_average.
    ebind (subscript movie ''vote_count'') (\<lambda>vote_count.
      Inr (JObj
        [(''id'', ident),
         (''title'', title),
         (''overview'', overview),
         (''poster_path'', poster_path),
         (''release_date'', release_date),
         (''year'', year),
         (''vote_average'', vote_average),
         (''vote_count'', vote_count),
         (''director'', director),
         (''actors'', actors),
         (''genres'', genres),
         (''providers'', JObj [(''streaming'', JList streaming)]),
         (''type'', JStr ''movie'')])))))))))"

text \<open>The summary of the last or next episode, \<^verbatim>\<open>None\<close> when the payload has none.\<close>

definition episode_info :: "json \<Rightarrow> string \<Rightarrow> error + json" where
  "episode_info details key =
    ebind (dict_get details key JNull) (\<lambda>ep.
      if truthy ep then
        ebind (subscript details key) (\<lambda>ep.
        ebind (dict_get ep ''season_number'' JNull) (\<lambda>season.
        ebind (dict_get ep ''episode_number'' JNull) (\<lambda>episode.
        ebind (dict_get ep ''air_date'' JNull) (\<lambda>air_date.
        ebind (dict_get ep ''name'' JNull) (\<lambda>name.
          Inr (JObj [(''season'', season), (''episode'', episode),
                     (''air_date'', air_date), (''name'', name)]))))))
      else Inr JNull)"

definition tv_status :: "json \<Rightarrow> error + json" where
  "tv_status details =
    ebind (dict_get details ''status'' (JStr ''N/A'')) (\<lambda>status.
    ebind (dict_get details ''in_production'' (JBool False)) (\<lambda>in_production.
    ebind (episode_info details ''last_episode_to_air'') (\<lambda>last_episode.
    ebind (episode_info details ''next_episode_to_air'') (\<lambda>next_episode.
      Inr (JObj [(''status'', status), (''in_production'', in_production),
                 (''last_episode'', last_episode), (''next_episode'', next_episode)])))))"

definition tv_record :: "json \<Rightarrow> json \<Rightarrow> json \<Rightarrow> json \<Rightarrow> json list \<Rightarrow> error + json" where
  "tv_record show actors genres tv_status_info streaming =
    ebind (subscript show ''id'') (\<lambda>ident.
    ebind (subscript show ''name'') (\<lambda>title.
    ebind (dict_get show ''overview'' (JStr [])) (\<lambda>overview.
    ebind (dict_get show ''poster_path'' JNull) (\<lambda>poster_path.
    ebind (dict_get show ''first_air_date'' JNull) (\<lambda>first_air_date.
    ebind (year_of show ''first_air_date'') (\<lambda>year.
    ebind (subscript show ''vote_average'') (\<lambda>vote_average.
    ebind (subscript show ''vote_count'') (\<lambda>vote_count.
      Inr (JObj
        [(''id'', ident),
         (''title'', title),
         (''overview'', overview),
         (''poster_path'', poster_path),
         (''first_air_date'', first_air_date),
         (''year'', year),
         (''vote_average'', vote_average),
         (''vote_count'', vote_count),
         (''actors'', actors),
         (''genres'', genres),
         (''tv_status'', tv_status_info),
         (''providers'', JObj [(''streaming'', JList streaming)]),
         (''type'', JStr ''tv'')])))))))))"

section \<open>The two processing loops\<close>

text \<open>
  What one iteration does once the detail payload has arrived: \<open>None\<close> when the item is
  skipped (\<^verbatim>\<open>continue\<close>), otherwise the record to append.
\<close>

definition movie_entry :: "env \<Rightarrow> json \<Rightarrow> json \<Rightarrow> error + json option" where
  "movie_entry e movie details =
    ebind (extract_director details) (\<lambda>director.
    ebind (extract_actors details) (\<lambda>actors.
    ebind (extract_streaming e details) (\<lambda>streaming.
    ebind (extract_genres details) (\<lambda>(genres, genre_list).
      if excluded genre_list then Inr None
      else ebind (movie_record movie director actors genres streaming) (\<lambda>r. Inr (Some r))))))"

definition tv_entry :: "env \<Rightarrow> json \<Rightarrow> json \<Rightarrow> error + json option" where
  "tv_entry e show details =
    ebind (extract_actors details) (\<lambda>actors.
    ebind (extract_streaming e details) (\<lambda>streaming.
    ebind (extract_genres details) (\<lambda>(genres, genre_list).
      if excluded genre_list then Inr None
      else
        ebind (tv_status details) (\<lambda>tv_status_info.
        ebind (tv_record show actors genres tv_status_info streaming) (\<lambda>r. Inr (Some r))))))"

text \<open>
  One iteration of either loop: read the item's id, fetch its details, then extract, filter
  and build the record.
\<close>

definition item_step ::
  "env \<Rightarrow> string \<Rightarrow> (json \<Rightarrow> json \<Rightarrow> error + json option) \<Rightarrow> json \<Rightarrow> json option prog" where
  "item_step e media_type entry item =
    bind (lift (subscript item ''id'')) (\<lambda>ident.
    bind (fetch_item_details e ident media_type) (\<lambda>details.
      lift (entry item details)))"

definition movie_step :: "env \<Rightarrow> json \<Rightarrow> json option prog" where
  "movie_step e = item_step e ''movie'' (movie_entry e)"

definition tv_step :: "env \<Rightarrow> json \<Rightarrow> json option prog" where
  "tv_step e = item_step e ''tv'' (tv_entry e)"

text \<open>A \<^verbatim>\<open>for\<close> loop over the discovered items, appending to the list of records.\<close>

fun for_items :: "(json \<Rightarrow> json option prog) \<Rightarrow> json list \<Rightarrow> json list \<Rightarrow> json list prog" where
  "for_items step [] out s = (Inr out, s)"
| "for_items step (item # items) out s =
    (case step item s of
       (Inl err, s') \<Rightarrow> (Inl err, s')
     | (Inr None, s') \<Rightarrow> for_items step items out s'
     | (Inr (Some r), s') \<Rightarrow> for_items step items (out @ [r]) s')"

section \<open>The run\<close>

definition MIN_RATING_STR :: string where
  "MIN_RATING_STR = ''6.0''"

definition movies_url :: string where
  "movies_url = API_BASE @ ''/discover/movie'' @ ''?sort_by=popularity.desc''
     @ ''&primary_release_date.gte='' @ START_DATE_STR
     @ ''&vote_count.gte='' @ str_int MIN_VOTES
     @ ''&vote_average.gte='' @ MIN_RATING_STR"

definition tv_url :: string where
  "tv_url = API_BASE @ ''/discover/tv'' @ ''?sort_by=popularity.desc''
     @ ''&first_air_date.gte='' @ START_DATE_STR
     @ ''&vote_count.gte='' @ str_int MIN_VOTES
     @ ''&vote_average.gte='' @ MIN_RATING_STR"

definition output_data :: "env \<Rightarrow> rat \<Rightarrow> rat \<Rightarrow> json list \<Rightarrow> json list \<Rightarrow> json" where
  "output_data e end_date now movies_data tv_data =
    JObj
      [(''movies'', JList movies_data),
       (''tv_shows'', JList tv_data),
       (''metadata'', JObj
          [(''generated_at'', JStr (isoformat e now)),
           (''start_date'', JStr START_DATE_STR),
           (''end_date'', JStr (strftime_ymd e end_date)),
           (''start_year'', JInt START_YEAR),
           (''start_month'', JInt START_MONTH),
           (''min_votes'', JInt MIN_VOTES),
           (''min_rating'', JFloat MIN_RATING),
           (''total_movies'', JInt (int (length movies_data))),
           (''total_tv'', JInt (int (length tv_data))),
           (''total_items'', JInt (int (length movies_data) + int (length tv_data)))])]"

text \<open>\<^verbatim>\<open>json.dump\<close> into \<^verbatim>\<open>data.json\<close>: the file holds the document afterwards.\<close>

definition write_output :: "json \<Rightarrow> unit prog" where
  "write_output doc s = (Inr (), s\<lparr>data_json := Some doc\<rparr>)"

definition token_set :: "env \<Rightarrow> bool" where
  "token_set e = (case tmdb_token e of None \<Rightarrow> False | Some t \<Rightarrow> t \<noteq> [])"

definition run :: "env \<Rightarrow> unit prog" where
  "run e s =
    (if \<not> token_set e then (Inl ValueError, s)
     else
       (let end_date = clock s in
        bind (fetch_all_pages e movies_url MAX_PAGES_PER_TYPE) (\<lambda>movies.
        bind (for_items (movie_step e) movies []) (\<lambda>movies_data.
        bind (fetch_all_pages e tv_url MAX_PAGES_PER_TYPE) (\<lambda>tv_shows.
        bind (for_items (tv_step e) tv_shows []) (\<lambda>tv_data.
          (\<lambda>s'. write_output (output_data e end_date (clock s') movies_data tv_data) s'))))) s))"


section \<open>Notions used to state the properties\<close>

text \<open>
  The body that \<^verbatim>\<open>rate_limited_get\<close> returns for an answer of the network, if it returns
  one.
\<close>

definition body_of :: "http_result \<Rightarrow> json option" where
  "body_of r =
    (case r of
       Transport_Failure \<Rightarrow> None
     | Response status body \<Rightarrow> if raise_for_status status then None else body)"

text \<open>
  The items one response contributes: the elements of its \<^verbatim>\<open>results\<close> value (of a list
  its elements, of a dict its keys, of a string its characters), nothing when the response
  has no such key.
\<close>

definition results_of :: "json \<Rightarrow> json list" where
  "results_of data =
    (case data of
       JObj kvs \<Rightarrow>
         (case map_of kvs ''results'' of
            Some (JList items) \<Rightarrow> items
          | Some (JObj fs) \<Rightarrow> map (\<lambda>kv. JStr (fst kv)) fs
          | Some (JStr s) \<Rightarrow> map (\<lambda>c. JStr [c]) s
          | _ \<Rightarrow> [])
     | _ \<Rightarrow> [])"

text \<open>
  The page bound after a response: the response's \<^verbatim>\<open>total_pages\<close>, or 1 without that
  key, when the response has a \<^verbatim>\<open>results\<close> key; the bound held before otherwise.
\<close>

definition learn :: "json \<Rightarrow> json \<Rightarrow> json" where
  "learn total_pages data =
    (case data of
       JObj kvs \<Rightarrow>
         (case map_of kvs ''results'' of
            None \<Rightarrow> total_pages
          | Some r \<Rightarrow> (case map_of kvs ''total_pages'' of None \<Rightarrow> JInt 1 | Some v \<Rightarrow> v))
     | _ \<Rightarrow> total_pages)"

text \<open>
  The page bound learned from the responses received so far; before any response it is the
  initial \<^verbatim>\<open>total_pages = 1\<close>.
\<close>

definition learned_bound :: "json list \<Rightarrow> json" where
  "learned_bound datas = foldl learn (JInt 1) datas"

subsection \<open>Sample environments\<close>

definition state0 :: state where
  "state0 = \<lparr>clock = 0, last_request_time = 0, sent = [], data_json = None\<rparr>"

text \<open>A server with two pages of one item each.\<close>

definition paged_env :: env where
  "paged_env = \<lparr>tmdb_token = Some ''token'',
     respond = (\<lambda>n url. Response 200
        (Some (JObj [(''results'', JList [JInt (int n)]), (''total_pages'', JInt 2)]))),
     latency = (\<lambda>n. 0), oversleep = (\<lambda>n. 0), str_of = (\<lambda>v. []),
     isoformat = (\<lambda>t. []), strftime_ymd = (\<lambda>t. [])\<rparr>"

text \<open>A server that reports no pages at all, and one whose page count shrinks from 5 to 1.\<close>

definition zero_env :: env where
  "zero_env = \<lparr>tmdb_token = Some ''token'',
     respond = (\<lambda>n url. Response 200
        (Some (JObj [(''results'', JList []), (''total_pages'', JInt 0)]))),
     latency = (\<lambda>n. 0), oversleep = (\<lambda>n. 0), str_of = (\<lambda>v. []),
     isoformat = (\<lambda>t. []), strftime_ymd = (\<lambda>t. [])\<rparr>"

definition shrink_env :: env where
  "shrink_env = \<lparr>tmdb_token = Some ''token'',
     respond = (\<lambda>n url. Response 200
        (Some (JObj [(''results'', JList [JInt (int n)]),
                     (''total_pages'', JInt (if n = 0 then 5 else 1))]))),
     latency = (\<lambda>n. 0), oversleep = (\<lambda>n. 0), str_of = (\<lambda>v. []),
     isoformat = (\<lambda>t. []), strftime_ymd = (\<lambda>t. [])\<rparr>"

text \<open>A server whose pages carry no \<^verbatim>\<open>results\<close> key.\<close>

definition bare_env :: env where
  "bare_env = \<lparr>tmdb_token = Some ''token'',
     respond = (\<lambda>n url. Response 200 (Some (JObj [(''total_pages'', JInt 5)]))),
     latency = (\<lambda>n. 0), oversleep = (\<lambda>n. 0), str_of = (\<lambda>v. []),
     isoformat = (\<lambda>t. []), strftime_ymd = (\<lambda>t. [])\<rparr>"

subsection \<open>Rate limiter and dates\<close>

text \<open>
  The values given to \<^verbatim>\<open>last_request_time\<close> by a sequence of calls of
  \<^verbatim>\<open>rate_limited_get\<close>; before each call the clock moves on by the time the script spent
  since the call before.
\<close>

fun grant_times :: "env \<Rightarrow> (rat \<times> string) list \<Rightarrow> state \<Rightarrow> rat list" where
  "grant_times e [] s = []"
| "grant_times e ((idle, url) # calls) s =
    (let s' = snd (rate_limited_get e url (s\<lparr>clock := clock s + idle\<rparr>))
     in last_request_time s' # grant_times e calls s')"



text \<open>A server and a sleep that is late by a tenth of a second.\<close>

definition late_env :: env where
  "late_env = \<lparr>tmdb_token = Some ''token'',
     respond = (\<lambda>n url. Response 200 (Some (JObj []))),
     latency = (\<lambda>n. 1 / 100), oversleep = (\<lambda>n. 1 / 10), str_of = (\<lambda>v. []),
     isoformat = (\<lambda>t. []), strftime_ymd = (\<lambda>t. [])\<rparr>"

subsection \<open>Extraction\<close>

text \<open>\<^verbatim>\<open>', '.join\<close> of strings.\<close>

fun comma_join :: "string list \<Rightarrow> string" where
  "comma_join [] = []"
| "comma_join [s] = s"
| "comma_join (s # t # ts) = s @ '', '' @ comma_join (t # ts)"

text \<open>A crew entry whose job is exactly \<^verbatim>\<open>Director\<close>; a value that is a dict.\<close>

definition has_job_director :: "json \<Rightarrow> bool" where
  "has_job_director p = (dict_get p ''job'' JNull = Inr (JStr ''Director''))"

definition is_object :: "json \<Rightarrow> bool" where
  "is_object v = (case v of JObj kvs \<Rightarrow> True | _ \<Rightarrow> False)"

text \<open>The entry of the streaming list made from a provider's name and logo path.\<close>

definition streaming_entry :: "env \<Rightarrow> json \<times> json \<Rightarrow> json" where
  "streaming_entry e nl =
    JObj [(''name'', fst nl), (''logo'', JStr (IMAGE_BASE @ py_format e (snd nl)))]"

text \<open>A detail payload with credits, providers and one genre.\<close>

definition demo_crew :: "json list" where
  "demo_crew = [JObj [(''job'', JStr ''Writer''), (''name'', JStr ''W'')],
                JObj [(''job'', JStr ''Director''), (''name'', JStr ''D'')],
                JObj [(''job'', JStr ''Director''), (''name'', JStr ''D2'')]]"

definition demo_cast :: "json list" where
  "demo_cast = [JObj [(''name'', JStr ''A'')], JObj [(''name'', JStr ''B'')],
                JObj [(''name'', JStr ''C'')], JObj [(''name'', JStr ''E'')]]"

definition demo_credits :: "(string \<times> json) list" where
  "demo_credits = [(''crew'', JList demo_crew), (''cast'', JList demo_cast)]"

definition demo_flatrate :: "json list" where
  "demo_flatrate = [JObj [(''provider_name'', JStr ''N''), (''logo_path'', JStr ''/n.png'')]]"

definition demo_us :: "(string \<times> json) list" where
  "demo_us = [(''flatrate'', JList demo_flatrate)]"

definition demo_kvs :: "string \<Rightarrow> (string \<times> json) list" where
  "demo_kvs genre =
     [(''credits'', JObj demo_credits),
      (''watch/providers'', JObj [(''results'', JObj [(''US'', JObj demo_us)])]),
      (''genres'', JList [JObj [(''name'', JStr genre)]])]"

definition demo_details :: "string \<Rightarrow> json" where
  "demo_details genre = JObj (demo_kvs genre)"

subsection \<open>Output lists\<close>

text \<open>
  The records that a loop appends for a list of items paired with the detail payloads they
  received: one record for a pair that yields one, none for a pair that is skipped.
\<close>

definition kept :: "(json \<Rightarrow> json \<Rightarrow> error + json option) \<Rightarrow> (json \<times> json) list \<Rightarrow> json list" where
  "kept entry pairs =
    concat (map (\<lambda>(item, details).
      case entry item details of Inr (Some r) \<Rightarrow> [r] | _ \<Rightarrow> []) pairs)"

text \<open>
  A server with one page of two items per category; the first item's details are a
  documentary, the second's an action title.
\<close>

definition demo_item :: json where
  "demo_item = JObj [(''id'', JInt 7), (''title'', JStr ''T''), (''name'', JStr ''T''),
     (''release_date'', JStr ''2024-03-15''), (''first_air_date'', JStr ''2024-03-15''),
     (''vote_average'', JFloat 7), (''vote_count'', JInt 10)]"

definition demo_page :: json where
  "demo_page = JObj [(''results'', JList [demo_item, demo_item]), (''total_pages'', JInt 1)]"

definition demo_env :: env where
  "demo_env = \<lparr>tmdb_token = Some ''token'',
     respond = (\<lambda>n url. if n = 0 \<or> n = 3 then Response 200 (Some demo_page)
                         else if n = 1 \<or> n = 4 then Response 200 (Some (demo_details ''Documentary''))
                         else Response 200 (Some (demo_details ''Action''))),
     latency = (\<lambda>n. 0), oversleep = (\<lambda>n. 0), str_of = (\<lambda>v. []),
     isoformat = (\<lambda>t. []), strftime_ymd = (\<lambda>t. [])\<rparr>"

subsection \<open>Items with missing fields\<close>





subsection \<open>Failing requests\<close>

text \<open>
  An answer on which \<^verbatim>\<open>rate_limited_get\<close> raises at once: the transport failed, or the
  status is one of 400 to 599.
\<close>

definition failing :: "http_result \<Rightarrow> bool" where
  "failing r =
    (case r of Transport_Failure \<Rightarrow> True | Response status body \<Rightarrow> raise_for_status status)"

text \<open>
  Bookkeeping for a run that started when \<open>n\<close> requests had been sent and the file held
  \<open>d\<close>: a state in which the file is untouched and no request since has failed; a state
  reached by an exception, in which the file is untouched and a request that failed is the
  last one sent, the exception being its error; and a computation that keeps to this.
\<close>

definition clean :: "env \<Rightarrow> nat \<Rightarrow> json option \<Rightarrow> state \<Rightarrow> bool" where
  "clean e n d s \<longleftrightarrow>
    data_json s = d \<and>
    (\<forall>i. n \<le> i \<and> i < length (sent s) \<longrightarrow> \<not> failing (respond e i (sent s ! i)))"

definition aborted :: "env \<Rightarrow> nat \<Rightarrow> json option \<Rightarrow> error \<Rightarrow> state \<Rightarrow> bool" where
  "aborted e n d err s \<longleftrightarrow>
    data_json s = d \<and>
    (\<forall>i. n \<le> i \<and> i < length (sent s) \<and> failing (respond e i (sent s ! i)) \<longrightarrow>
       Suc i = length (sent s) \<and> (err = HTTPError \<or> err = ConnectionError))"

definition triple ::
  "env \<Rightarrow> nat \<Rightarrow> json option \<Rightarrow> 'a prog \<Rightarrow> ('a \<Rightarrow> state \<Rightarrow> bool) \<Rightarrow> bool" where
  "triple e n d p Q \<longleftrightarrow>
    (\<forall>s r s'. clean e n d s \<and> p s = (r, s') \<longrightarrow>
       (case r of Inr x \<Rightarrow> Q x s' | Inl err \<Rightarrow> aborted e n d err s'))"

text \<open>
  A server that answers with status 300 and an empty page; one whose second answer is a
  status 500; a state in which the output file already exists.
\<close>

definition empty_page :: json where
  "empty_page = JObj [(''results'', JList []), (''total_pages'', JInt 1)]"

definition choices_env :: env where
  "choices_env = \<lparr>tmdb_token = Some ''token'',
     respond = (\<lambda>n url. Response 300 (Some empty_page)),
     latency = (\<lambda>n. 0), oversleep = (\<lambda>n. 0), str_of = (\<lambda>v. []),
     isoformat = (\<lambda>t. []), strftime_ymd = (\<lambda>t. [])\<rparr>"

definition failing_env :: env where
  "failing_env = \<lparr>tmdb_token = Some ''token'',
     respond = (\<lambda>n url. if n = 0 then Response 200 (Some demo_page) else Response 500 None),
     latency = (\<lambda>n. 0), oversleep = (\<lambda>n. 0), str_of = (\<lambda>v. []),
     isoformat = (\<lambda>t. []), strftime_ymd = (\<lambda>t. [])\<rparr>"

definition state_old :: state where
  "state_old = \<lparr>clock = 0, last_request_time = 0, sent = [], data_json = Some (JStr ''old'')\<rparr>"

section \<open>Properties of the page loop\<close>

lemma absorb_Inr:
  assumes "absorb data acc tp = Inr (acc', tp')"
  shows "acc' = acc @ results_of data \<and> tp' = learn tp data"
proof (cases data)
  case (JObj kvs)
  show ?thesis
  proof (cases "map_of kvs ''results''")
    case None
    with assms JObj show ?thesis by (simp add: absorb_def ebind_def results_of_def learn_def)
  next
    case (Some r)
    with assms JObj show ?thesis
      by (cases r) (auto simp: absorb_def ebind_def results_of_def learn_def)
  qed
next
  case (JList xs)
  with assms show ?thesis
    by (auto simp: absorb_def ebind_def results_of_def learn_def split: if_splits)
next
  case (JStr s)
  with assms show ?thesis
    by (auto simp: absorb_def ebind_def results_of_def learn_def split: if_splits)
qed (use assms in \<open>simp_all add: absorb_def ebind_def\<close>)

lemma rate_limited_get_sent: "sent (snd (rate_limited_get e url s)) = sent s @ [url]"
  by (simp add: rate_limited_get_def acquire_def Let_def split: http_result.splits option.splits)

lemma rate_limited_get_Inr:
  "rate_limited_get e url s = (Inr data, s') \<Longrightarrow>
     body_of (respond e (length (sent s)) url) = Some data \<and> sent s' = sent s @ [url]"
  by (auto simp: rate_limited_get_def acquire_def Let_def body_of_def split: http_result.splits option.splits if_splits)

lemma fetch_loop_Inr:
  "fetch_loop e url max_pages page tp acc s = (Inr res, s') \<Longrightarrow>
   \<exists>datas. sent s' = sent s @ map (\<lambda>k. page_url url (page + int k)) [0..<length datas] \<and>
     (\<forall>k<length datas. body_of (respond e (length (sent s) + k) (page_url url (page + int k))) = Some (datas ! k)) \<and>
     (\<forall>k<length datas. loop_test (page + int k) (foldl learn tp (take k datas)) max_pages = Inr True) \<and>
     loop_test (page + int (length datas)) (foldl learn tp datas) max_pages = Inr False \<and>
     res = acc @ concat (map results_of datas)"
proof (induction e url max_pages page tp acc s rule: fetch_loop.induct)
  case (1 e url max_pages page tp acc s)
  show ?case
  proof (cases "loop_test page tp max_pages")
    case (Inl err)
    with "1.prems" show ?thesis by (simp add: fetch_loop.simps)
  next
    case (Inr continue)
    show ?thesis
    proof (cases continue)
      case False
      with Inr "1.prems" have "res = acc" "s' = s" by (simp_all add: fetch_loop.simps)
      with Inr False show ?thesis by (intro exI [of _ "[]"]) simp
    next
      case True
      obtain r s1 where get: "rate_limited_get e (page_url url page) s = (r, s1)"
        by (cases "rate_limited_get e (page_url url page) s")
      with Inr True "1.prems" obtain data where r: "r = Inr data"
        by (cases r) (simp_all add: fetch_loop.simps)
      with Inr True "1.prems" get obtain acc1 tp1 where ab: "absorb data acc tp = Inr (acc1, tp1)"
        by (cases "absorb data acc tp") (auto simp add: fetch_loop.simps)
      with Inr True "1.prems" get r
      have rec: "fetch_loop e url max_pages (page + 1) tp1 acc1 s1 = (Inr res, s')"
        by (simp add: fetch_loop.simps)
      from "1.IH" [OF Inr True get [symmetric] r ab refl rec]
      obtain datas where
        d1: "sent s' = sent s1 @ map (\<lambda>k. page_url url (page + 1 + int k)) [0..<length datas]" and
        d2: "\<forall>k<length datas. body_of (respond e (length (sent s1) + k) (page_url url (page + 1 + int k))) = Some (datas ! k)" and
        d3: "\<forall>k<length datas. loop_test (page + 1 + int k) (foldl learn tp1 (take k datas)) max_pages = Inr True" and
        d4: "loop_test (page + 1 + int (length datas)) (foldl learn tp1 datas) max_pages = Inr False" and
        d5: "res = acc1 @ concat (map results_of datas)"
        by auto
      from rate_limited_get_Inr [OF get [unfolded r]]
      have b: "body_of (respond e (length (sent s)) (page_url url page)) = Some data"
        and s1: "sent s1 = sent s @ [page_url url page]" by simp_all
      from absorb_Inr [OF ab] have a1: "acc1 = acc @ results_of data" and t1: "tp1 = learn tp data"
        by simp_all
      have m: "map (\<lambda>k. page_url url (page + int k)) [0..<length (data # datas)]
               = page_url url page # map (\<lambda>k. page_url url (page + 1 + int k)) [0..<length datas]"
        by (simp add: upt_conv_Cons map_Suc_upt [symmetric] del: upt_Suc) (simp add: add.commute add.left_commute)
      show ?thesis
      proof (intro exI [of _ "data # datas"] conjI allI impI)
        show "sent s' = sent s @ map (\<lambda>k. page_url url (page + int k)) [0..<length (data # datas)]"
          using d1 s1 m by simp
      next
        fix k assume "k < length (data # datas)"
        then show "body_of (respond e (length (sent s) + k) (page_url url (page + int k))) = Some ((data # datas) ! k)"
          using b d2 s1 by (cases k) (auto simp: add.commute add.left_commute)
      next
        fix k assume "k < length (data # datas)"
        then show "loop_test (page + int k) (foldl learn tp (take k (data # datas))) max_pages = Inr True"
          using Inr True d3 t1 by (cases k) (auto simp: add.commute add.left_commute)
      next
        show "loop_test (page + int (length (data # datas))) (foldl learn tp (data # datas)) max_pages = Inr False"
          using d4 t1 by (simp add: ac_simps)
      next
        show "res = acc @ concat (map results_of (data # datas))"
          using d5 a1 by simp
      qed
    qed
  qed
qed


lemma upto_as_map: "[1..int n] = map (\<lambda>k. 1 + int k) [0..<n]"
proof (induction n)
  case 0
  show ?case by simp
next
  case (Suc n)
  have "[1..int (Suc n)] = [1..int n] @ [int n + 1]"
    by (simp add: upto_rec2 ac_simps)
  with Suc show ?case by (simp add: ac_simps)
qed

lemma digits_nonempty: "digits n \<noteq> []"
  by (subst digits.simps) simp

lemma digit_char_inj: "a < 10 \<Longrightarrow> b < 10 \<Longrightarrow> digit_char a = digit_char b \<Longrightarrow> a = b"
proof -
  assume a: "a < 10" and b: "b < 10" and eq: "digit_char a = digit_char b"
  from eq have "(of_char (char_of (48 + a)) :: nat) = of_char (char_of (48 + b))"
    by (simp add: digit_char_def)
  with a b show "a = b" by (simp add: of_char_of)
qed

lemma digits_inj: "digits m = digits n \<Longrightarrow> m = n"
proof (induction m arbitrary: n rule: digits.induct)
  case (1 m)
  show ?case
  proof (cases "m < 10")
    case True
    then have dm: "digits m = [digit_char m]" by (subst digits.simps) simp
    show ?thesis
    proof (cases "n < 10")
      case n: True
      then have "digits n = [digit_char n]" by (subst digits.simps) simp
      with dm "1.prems" True n show ?thesis by (auto dest: digit_char_inj)
    next
      case False
      then have "digits n = digits (n div 10) @ [digit_char (n mod 10)]"
        by (subst digits.simps) simp
      with dm "1.prems" digits_nonempty [of "n div 10"] show ?thesis by (cases "digits (n div 10)") auto
    qed
  next
    case False
    then have dm: "digits m = digits (m div 10) @ [digit_char (m mod 10)]"
      by (subst digits.simps) simp
    show ?thesis
    proof (cases "n < 10")
      case True
      then have "digits n = [digit_char n]" by (subst digits.simps) simp
      with dm "1.prems" digits_nonempty [of "m div 10"] show ?thesis by (cases "digits (m div 10)") auto
    next
      case n: False
      then have "digits n = digits (n div 10) @ [digit_char (n mod 10)]"
        by (subst digits.simps) simp
      with dm "1.prems" have a: "digits (m div 10) = digits (n div 10)"
        and b: "digit_char (m mod 10) = digit_char (n mod 10)" by simp_all
      from "1.IH" [OF False a] have "m div 10 = n div 10" .
      moreover have "m mod 10 = n mod 10" by (rule digit_char_inj [OF _ _ b]) simp_all
      ultimately show ?thesis by (metis div_mult_mod_eq)
    qed
  qed
qed

lemma page_url_inj: "0 \<le> p \<Longrightarrow> 0 \<le> q \<Longrightarrow> page_url url p = page_url url q \<Longrightarrow> p = q"
  by (auto simp: page_url_def str_int_def dest: digits_inj)

lemma distinct_pages: "distinct (map (page_url url) [1..n])"
proof -
  have "inj_on (page_url url) (set [1..n])"
  proof (rule inj_onI)
    fix x y assume "x \<in> set [1..n]" "y \<in> set [1..n]" "page_url url x = page_url url y"
    then show "x = y" by (intro page_url_inj [of x y url]) simp_all
  qed
  then show ?thesis by (simp add: distinct_map)
qed


text \<open>
  Claim C1, as amended. When \<^verbatim>\<open>fetch_all_pages\<close> returns, with \<open>max_pages \<ge> 1\<close>, the
  requests it has issued are those for the pages \<open>1, 2, \<dots>, n\<close> in this order, for some
  \<open>n \<ge> 1\<close>, each URL being the query URL followed by \<^verbatim>\<open>&page=\<close> and the page number,
  and no two of them equal. Page 1 is requested under the initial bound 1; every later page
  \<open>k + 1\<close> was requested while it was within \<open>min (total_pages, max_pages)\<close> for the
  bound learned from the \<open>k\<close> responses before it, and page \<open>n + 1\<close> is beyond the
  bound learned from all \<open>n\<close> responses. The list returned is the concatenation, in page
  order, of the \<^verbatim>\<open>results\<close> arrays of the responses. When the responses all report the
  same bound \<open>T \<ge> 1\<close>, \<open>n = min T max_pages\<close>.
\<close>

theorem fetch_all_pages_pages:
  assumes run: "fetch_all_pages e url max_pages s = (Inr res, s')" and cap: "1 \<le> max_pages"
  shows "\<exists>datas. datas \<noteq> [] \<and>
     sent s' = sent s @ map (\<lambda>p. url @ ''&page='' @ str_int p) [1..int (length datas)] \<and>
     distinct (map (\<lambda>p. url @ ''&page='' @ str_int p) [1..int (length datas)]) \<and>
     (\<forall>k<length datas.
        body_of (respond e (length (sent s) + k) (url @ ''&page='' @ str_int (1 + int k)))
          = Some (datas ! k)) \<and>
     (\<forall>k<length datas. \<exists>t. py_num (learned_bound (take k datas)) = Some t \<and>
        rat_of_int (1 + int k) \<le> min t (rat_of_int max_pages)) \<and>
     (\<exists>t. py_num (learned_bound datas) = Some t \<and>
        min t (rat_of_int max_pages) < rat_of_int (1 + int (length datas))) \<and>
     res = concat (map results_of datas) \<and>
     (\<forall>T. 1 \<le> T \<and> (\<forall>k. 0 < k \<and> k \<le> length datas \<longrightarrow> learned_bound (take k datas) = JInt T)
        \<longrightarrow> int (length datas) = min T max_pages)"
proof -
  from fetch_loop_Inr [OF run [unfolded fetch_all_pages_def]] obtain datas where
    d1: "sent s' = sent s @ map (\<lambda>k. page_url url (1 + int k)) [0..<length datas]" and
    d2: "\<forall>k<length datas. body_of (respond e (length (sent s) + k) (page_url url (1 + int k))) = Some (datas ! k)" and
    d3: "\<forall>k<length datas. loop_test (1 + int k) (foldl learn (JInt 1) (take k datas)) max_pages = Inr True" and
    d4: "loop_test (1 + int (length datas)) (foldl learn (JInt 1) datas) max_pages = Inr False" and
    d5: "res = [] @ concat (map results_of datas)"
    by blast
  have test_True: "\<exists>t. py_num tp = Some t \<and> rat_of_int p \<le> min t (rat_of_int m)"
    if "loop_test p tp m = Inr True" for p tp m
  proof (cases "py_num tp")
    case None
    with that show ?thesis by (simp add: loop_test_def)
  next
    case (Some t)
    with that have "rat_of_int p \<le> (if rat_of_int m < t then rat_of_int m else t)"
      by (simp add: loop_test_def)
    then have "rat_of_int p \<le> min t (rat_of_int m)"
      by (simp add: min_def split: if_splits)
    with Some show ?thesis by blast
  qed
  have test_False: "\<exists>t. py_num tp = Some t \<and> min t (rat_of_int m) < rat_of_int p"
    if "loop_test p tp m = Inr False" for p tp m
  proof (cases "py_num tp")
    case None
    with that show ?thesis by (simp add: loop_test_def)
  next
    case (Some t)
    with that have "\<not> rat_of_int p \<le> (if rat_of_int m < t then rat_of_int m else t)"
      by (simp add: loop_test_def)
    then have "min t (rat_of_int m) < rat_of_int p"
      by (simp add: min_def split: if_splits)
    with Some show ?thesis by blast
  qed
  have ne: "datas \<noteq> []"
  proof
    assume "datas = []"
    with d4 cap show False by (auto simp: loop_test_def split: if_splits)
  qed
  have pu: "page_url url = (\<lambda>p. url @ ''&page='' @ str_int p)"
    by (simp add: page_url_def fun_eq_iff)
  have c2: "sent s' = sent s @ map (\<lambda>p. url @ ''&page='' @ str_int p) [1..int (length datas)]"
    using d1 by (simp add: upto_as_map comp_def pu)
  have c3: "distinct (map (\<lambda>p. url @ ''&page='' @ str_int p) [1..int (length datas)])"
    using distinct_pages [of url "int (length datas)"] by (simp only: pu)
  have d2': "\<forall>k<length datas.
        body_of (respond e (length (sent s) + k) (url @ ''&page='' @ str_int (1 + int k)))
          = Some (datas ! k)"
    using d2 by (simp add: page_url_def)
  have c4: "\<forall>k<length datas. \<exists>t. py_num (learned_bound (take k datas)) = Some t \<and>
        rat_of_int (1 + int k) \<le> min t (rat_of_int max_pages)"
    unfolding learned_bound_def using d3 test_True by blast
  have c5: "\<exists>t. py_num (learned_bound datas) = Some t \<and>
        min t (rat_of_int max_pages) < rat_of_int (1 + int (length datas))"
    unfolding learned_bound_def using d4 test_False by blast
  have c7: "int (length datas) = min T max_pages"
    if T: "1 \<le> T" and const: "\<forall>k. 0 < k \<and> k \<le> length datas \<longrightarrow> learned_bound (take k datas) = JInt T"
    for T
  proof -
    from ne have pos: "0 < length datas" by simp
    with const have "learned_bound datas = JInt T" by force
    with c5 have up: "min T max_pages < 1 + int (length datas)"
      by (auto simp: min_def split: if_splits)
    show ?thesis
    proof (cases "length datas = 1")
      case True
      with up T cap show ?thesis by (simp add: min_def split: if_splits)
    next
      case False
      with pos have k: "0 < length datas - 1" "length datas - 1 < length datas" by linarith+
      with const have "learned_bound (take (length datas - 1) datas) = JInt T" by simp
      with c4 k(2) have "rat_of_int (1 + int (length datas - 1)) \<le> min (rat_of_int T) (rat_of_int max_pages)"
        by fastforce
      then have "int (length datas) \<le> min T max_pages"
        using pos by (auto simp: min_def of_nat_diff split: if_splits)
      with up show ?thesis by linarith
    qed
  qed
  from ne c2 c3 d2' c4 c5 d5 c7 show ?thesis by (intro exI [of _ datas]) simp
qed

theorem fetch_all_pages_pages_witness:
  "fst (fetch_all_pages paged_env ''u'' 5 state0) = Inr [JInt 0, JInt 1] \<and>
   sent (snd (fetch_all_pages paged_env ''u'' 5 state0)) = [''u&page=1'', ''u&page=2''] \<and>
   (\<exists>datas. length datas = 2 \<and>
      sent (snd (fetch_all_pages paged_env ''u'' 5 state0))
        = sent state0 @ map (\<lambda>p. ''u'' @ ''&page='' @ str_int p) [1..int (length datas)] \<and>
      [JInt 0, JInt 1] = concat (map results_of datas))"
proof -
  have r: "fst (fetch_all_pages paged_env ''u'' 5 state0) = Inr [JInt 0, JInt 1]"
    by code_simp
  then have h: "fetch_all_pages paged_env ''u'' 5 state0
      = (Inr [JInt 0, JInt 1], snd (fetch_all_pages paged_env ''u'' 5 state0))"
    by (metis prod.collapse)
  have cap: "(1::int) \<le> 5" by simp
  from fetch_all_pages_pages [OF h cap] obtain datas where
    d: "sent (snd (fetch_all_pages paged_env ''u'' 5 state0))
          = sent state0 @ map (\<lambda>p. ''u'' @ ''&page='' @ str_int p) [1..int (length datas)]"
       "[JInt 0, JInt 1] = concat (map results_of datas)"
    by (elim exE conjE)
  have two: "sent (snd (fetch_all_pages paged_env ''u'' 5 state0)) = [''u&page=1'', ''u&page=2'']"
    by code_simp
  have "length (sent (snd (fetch_all_pages paged_env ''u'' 5 state0))) = length datas"
    by (subst d(1)) (simp add: state0_def)
  with two have l: "length datas = 2" by simp
  have "\<exists>datas. length datas = 2 \<and>
      sent (snd (fetch_all_pages paged_env ''u'' 5 state0))
        = sent state0 @ map (\<lambda>p. ''u'' @ ''&page='' @ str_int p) [1..int (length datas)] \<and>
      [JInt 0, JInt 1] = concat (map results_of datas)"
    using l d by (intro exI [of _ datas] conjI)
  with r two show ?thesis by simp
qed

text \<open>
  The claim as first stated, with a single total-page bound, fails: a server that reports
  \<^verbatim>\<open>total_pages = 0\<close> is still asked for page 1, where \<open>1..min 0 5\<close> is empty; and when
  the reported count shrinks from 5 to 1, pages 1 and 2 are requested, which is neither
  \<open>1..min 5 5\<close> nor \<open>1..min 1 5\<close>.
\<close>

theorem fetch_all_pages_counterexample:
  "sent (snd (fetch_all_pages zero_env ''u'' 5 state0)) = [''u&page=1''] \<and>
   learned_bound [JObj [(''results'', JList []), (''total_pages'', JInt 0)]] = JInt 0 \<and>
   sent (snd (fetch_all_pages zero_env ''u'' 5 state0)) \<noteq> map (page_url ''u'') [1..min 0 5] \<and>
   sent (snd (fetch_all_pages shrink_env ''u'' 5 state0)) = [''u&page=1'', ''u&page=2''] \<and>
   sent (snd (fetch_all_pages shrink_env ''u'' 5 state0)) \<noteq> map (page_url ''u'') [1..min 1 5] \<and>
   sent (snd (fetch_all_pages shrink_env ''u'' 5 state0)) \<noteq> map (page_url ''u'') [1..min 5 5]"
proof -
  have a: "sent (snd (fetch_all_pages zero_env ''u'' 5 state0)) = [''u&page=1'']"
    by code_simp
  have b: "learned_bound [JObj [(''results'', JList []), (''total_pages'', JInt 0)]] = JInt 0"
    by (simp add: learned_bound_def learn_def)
  have c: "sent (snd (fetch_all_pages shrink_env ''u'' 5 state0)) = [''u&page=1'', ''u&page=2'']"
    by code_simp
  have d: "map (page_url ''u'') [1..min 0 5] = []" by simp
  have e: "length (map (page_url ''u'') [1..min 1 5]) = 1" by simp
  have f: "length (map (page_url ''u'') [1..min 5 5]) = 5" by simp
  have x: "sent (snd (fetch_all_pages zero_env ''u'' 5 state0)) \<noteq> map (page_url ''u'') [1..min 0 5]"
    using a d by simp
  have y: "sent (snd (fetch_all_pages shrink_env ''u'' 5 state0)) \<noteq> map (page_url ''u'') [1..min 1 5]"
  proof
    assume "sent (snd (fetch_all_pages shrink_env ''u'' 5 state0)) = map (page_url ''u'') [1..min 1 5]"
    then have "length (sent (snd (fetch_all_pages shrink_env ''u'' 5 state0))) = 1"
      using e by simp
    with c show False by simp
  qed
  have z: "sent (snd (fetch_all_pages shrink_env ''u'' 5 state0)) \<noteq> map (page_url ''u'') [1..min 5 5]"
  proof
    assume "sent (snd (fetch_all_pages shrink_env ''u'' 5 state0)) = map (page_url ''u'') [1..min 5 5]"
    then have "length (sent (snd (fetch_all_pages shrink_env ''u'' 5 state0))) = 5"
      using f by simp
    with c show False by simp
  qed
  from a b c x y z show ?thesis by simp
qed

text \<open>
  Claim C2. Take a page whose response is an object. If it has no \<^verbatim>\<open>results\<close> key, the
  accumulator and the page bound are left as they are and the loop goes on with the next
  page. If it has a \<^verbatim>\<open>results\<close> array, its items are appended and the bound becomes the
  response's \<^verbatim>\<open>total_pages\<close>, or 1 when that key is absent; in the latter case the loop
  returns right after this page.
\<close>

lemma absorb_no_results:
  "map_of kvs ''results'' = None \<Longrightarrow> absorb (JObj kvs) acc tp = Inr (acc, tp)"
  by (simp add: absorb_def ebind_def)

lemma absorb_results:
  "map_of kvs ''results'' = Some (JList items) \<Longrightarrow>
   absorb (JObj kvs) acc tp =
     Inr (acc @ items, case map_of kvs ''total_pages'' of None \<Rightarrow> JInt 1 | Some v \<Rightarrow> v)"
  by (simp add: absorb_def ebind_def)

lemma loop_test_after_default:
  "1 \<le> page \<Longrightarrow> loop_test (page + 1) (JInt 1) max_pages = Inr False"
  by (simp add: loop_test_def)

theorem page_without_results:
  assumes get: "rate_limited_get e (page_url url page) s = (Inr (JObj kvs), s')"
      and test: "loop_test page tp max_pages = Inr True"
      and page: "1 \<le> page"
  shows "(map_of kvs ''results'' = None \<longrightarrow>
            fetch_loop e url max_pages page tp acc s
              = fetch_loop e url max_pages (page + 1) tp acc s') \<and>
         (\<forall>items. map_of kvs ''results'' = Some (JList items) \<longrightarrow>
            fetch_loop e url max_pages page tp acc s
              = fetch_loop e url max_pages (page + 1)
                  (case map_of kvs ''total_pages'' of None \<Rightarrow> JInt 1 | Some v \<Rightarrow> v)
                  (acc @ items) s') \<and>
         (\<forall>items. map_of kvs ''results'' = Some (JList items) \<and> map_of kvs ''total_pages'' = None \<longrightarrow>
            fetch_loop e url max_pages page tp acc s = (Inr (acc @ items), s'))"
proof (intro conjI allI impI)
  assume "map_of kvs ''results'' = None"
  then show "fetch_loop e url max_pages page tp acc s = fetch_loop e url max_pages (page + 1) tp acc s'"
    using get test by (subst fetch_loop.simps) (simp add: absorb_no_results)
next
  fix items assume "map_of kvs ''results'' = Some (JList items)"
  then show "fetch_loop e url max_pages page tp acc s
              = fetch_loop e url max_pages (page + 1)
                  (case map_of kvs ''total_pages'' of None \<Rightarrow> JInt 1 | Some v \<Rightarrow> v)
                  (acc @ items) s'"
    using get test by (subst fetch_loop.simps) (simp add: absorb_results)
next
  fix items assume a: "map_of kvs ''results'' = Some (JList items) \<and> map_of kvs ''total_pages'' = None"
  then have "fetch_loop e url max_pages page tp acc s
              = fetch_loop e url max_pages (page + 1) (JInt 1) (acc @ items) s'"
    using get test by (subst fetch_loop.simps) (simp add: absorb_results)
  also have "\<dots> = (Inr (acc @ items), s')"
    using loop_test_after_default [OF page] by (subst fetch_loop.simps) simp
  finally show "fetch_loop e url max_pages page tp acc s = (Inr (acc @ items), s')" .
qed

theorem page_without_results_witness:
  "fetch_loop bare_env ''u'' 5 1 (JInt 1) [JInt 7] state0
     = fetch_loop bare_env ''u'' 5 2 (JInt 1) [JInt 7]
         (snd (rate_limited_get bare_env (page_url ''u'' 1) state0))"
proof -
  have "fst (rate_limited_get bare_env (page_url ''u'' 1) state0)
          = Inr (JObj [(''total_pages'', JInt 5)])"
    by code_simp
  then have get: "rate_limited_get bare_env (page_url ''u'' 1) state0
      = (Inr (JObj [(''total_pages'', JInt 5)]),
         snd (rate_limited_get bare_env (page_url ''u'' 1) state0))"
    by (metis prod.collapse)
  have test: "loop_test 1 (JInt 1) 5 = Inr True" by (simp add: loop_test_def)
  have page: "(1::int) \<le> 1" by simp
  from page_without_results [OF get test page, of "[JInt 7]"] show ?thesis by simp
qed

section \<open>Rate limiter\<close>

lemma acquire_gap:
  assumes "0 \<le> oversleep e (length (sent s))"
  shows "last_request_time s + DELAY_BETWEEN_REQUESTS \<le> last_request_time (acquire e s)"
    and "last_request_time (acquire e s) = clock (acquire e s)"
  using assms by (auto simp: acquire_def Let_def)

lemma rate_limited_get_last:
  "last_request_time (snd (rate_limited_get e url s)) = last_request_time (acquire e s)"
  by (simp add: rate_limited_get_def Let_def split: http_result.splits option.splits)

lemma get_gap:
  assumes "\<forall>n. 0 \<le> oversleep e n"
  shows "last_request_time s + DELAY_BETWEEN_REQUESTS
           \<le> last_request_time (snd (rate_limited_get e url (s\<lparr>clock := t\<rparr>)))"
proof -
  have "0 \<le> oversleep e (length (sent (s\<lparr>clock := t\<rparr>)))" using assms by blast
  from acquire_gap(1) [OF this] show ?thesis by (simp add: rate_limited_get_last)
qed

lemma grant_times_spaced:
  assumes "\<forall>n. 0 \<le> oversleep e n"
  shows "successively (\<lambda>a b. a + DELAY_BETWEEN_REQUESTS \<le> b) (grant_times e calls s) \<and>
         (\<forall>g \<in> set (take 1 (grant_times e calls s)). last_request_time s + DELAY_BETWEEN_REQUESTS \<le> g)"
proof (induction calls arbitrary: s)
  case Nil
  show ?case by simp
next
  case (Cons c calls)
  obtain idle url where c: "c = (idle, url)" by (cases c)
  define s' where "s' = snd (rate_limited_get e url (s\<lparr>clock := clock s + idle\<rparr>))"
  have g: "last_request_time s + DELAY_BETWEEN_REQUESTS \<le> last_request_time s'"
    unfolding s'_def by (rule get_gap [OF assms])
  from Cons.IH [of s'] have ih1: "successively (\<lambda>a b. a + DELAY_BETWEEN_REQUESTS \<le> b) (grant_times e calls s')"
    and ih2: "\<forall>g \<in> set (take 1 (grant_times e calls s')). last_request_time s' + DELAY_BETWEEN_REQUESTS \<le> g"
    by simp_all
  have "successively (\<lambda>a b. a + DELAY_BETWEEN_REQUESTS \<le> b) (last_request_time s' # grant_times e calls s')"
    using ih1 ih2 by (cases "grant_times e calls s'") simp_all
  with g show ?case by (simp add: c s'_def Let_def)
qed

text \<open>
  Claim C8. Time is read off an exact clock, and a sleep lasts at least as long as asked
  (\<open>oversleep\<close> is not negative). Then in every sequence of calls the time stamps granted to
  consecutive calls are at least \<^verbatim>\<open>DELAY_BETWEEN_REQUESTS\<close> = 10 / 40 seconds apart,
  whatever time passes between the calls: a call returns from its wait no earlier than
  that long after the stamp before it, and it stores the time of its own grant.
\<close>

theorem rate_limiter_spacing:
  assumes "\<forall>n. 0 \<le> oversleep e n"
  shows "successively (\<lambda>a b. a + DELAY_BETWEEN_REQUESTS \<le> b) (grant_times e calls s) \<and>
         last_request_time s + DELAY_BETWEEN_REQUESTS \<le> clock (acquire e s) \<and>
         last_request_time (acquire e s) = clock (acquire e s) \<and>
         DELAY_BETWEEN_REQUESTS = 10 / REQUESTS_PER_10_SEC"
proof -
  have "0 \<le> oversleep e (length (sent s))" using assms by blast
  from acquire_gap [OF this] grant_times_spaced [OF assms, of calls s] show ?thesis
    by (simp add: DELAY_BETWEEN_REQUESTS_def)
qed

theorem rate_limiter_spacing_witness:
  "grant_times late_env [(0, ''a''), (1 / 20, ''b''), (3, ''c'')] state0
     = [7 / 20, 7 / 10, 371 / 100] \<and>
   successively (\<lambda>a b. a + DELAY_BETWEEN_REQUESTS \<le> b)
     (grant_times late_env [(0, ''a''), (1 / 20, ''b''), (3, ''c'')] state0)"
proof -
  have h: "\<forall>n. 0 \<le> oversleep late_env n" by (simp add: late_env_def)
  have v: "grant_times late_env [(0, ''a''), (1 / 20, ''b''), (3, ''c'')] state0
     = [7 / 20, 7 / 10, 371 / 100]"
    by code_simp
  from rate_limiter_spacing [OF h] v show ?thesis by blast
qed

section \<open>Year of a record\<close>
















section \<open>Extraction from a detail payload\<close>

lemma join_strings: "join (map JStr names) = Inr (comma_join names)"
  by (induction names rule: comma_join.induct) simp_all

lemma first_director_find:
  "list_all is_object crew \<Longrightarrow> first_director crew = Inr (find has_job_director crew)"
proof (induction crew)
  case Nil
  show ?case by simp
next
  case (Cons p crew)
  then obtain kvs where "p = JObj kvs" by (cases p) (simp_all add: is_object_def)
  with Cons show ?case by (simp add: ebind_def has_job_director_def)
qed

lemma find_director_truthy: "find has_job_director crew = Some p \<Longrightarrow> truthy p"
proof -
  assume "find has_job_director crew = Some p"
  then have "has_job_director p" by (auto simp: find_Some_iff)
  then show "truthy p" by (cases p) (auto simp: has_job_director_def)
qed

lemma no_credits:
  "map_of kvs ''credits'' = None \<Longrightarrow>
   extract_director (JObj kvs) = Inr (JStr ''N/A'') \<and> extract_actors (JObj kvs) = Inr (JStr ''N/A'')"
  by (simp add: extract_director_def extract_actors_def ebind_def)

lemma director_no_crew:
  "map_of kvs ''credits'' = Some (JObj c) \<Longrightarrow> map_of c ''crew'' = None \<or> map_of c ''crew'' = Some (JList []) \<Longrightarrow>
   extract_director (JObj kvs) = Inr (JStr ''N/A'')"
  by (auto simp: extract_director_def ebind_def)

lemma director_crew:
  assumes "map_of kvs ''credits'' = Some (JObj c)" "map_of c ''crew'' = Some (JList crew)"
      and "list_all is_object crew"
  shows "extract_director (JObj kvs) =
           (case find has_job_director crew of
              None \<Rightarrow> Inr (JStr ''N/A'')
            | Some p \<Rightarrow> subscript p ''name'')"
proof (cases crew)
  case Nil
  with assms show ?thesis by (auto simp: extract_director_def ebind_def)
next
  case (Cons p ps)
  have c: "c \<noteq> []" using assms(2) by auto
  show ?thesis
    using assms(1,2) c Cons first_director_find [OF assms(3)] find_director_truthy [of crew]
    by (auto simp: extract_director_def ebind_def split: option.splits)
qed

lemma actors_no_cast:
  "map_of kvs ''credits'' = Some (JObj c) \<Longrightarrow> map_of c ''cast'' = None \<or> map_of c ''cast'' = Some (JList []) \<Longrightarrow>
   extract_actors (JObj kvs) = Inr (JStr ''N/A'')"
  by (auto simp: extract_actors_def ebind_def)

lemma emap_names:
  "map (\<lambda>a. subscript a ''name'') xs = map (\<lambda>n. Inr (JStr n)) names \<Longrightarrow>
   emap (\<lambda>a. subscript a ''name'') xs = Inr (map JStr names)"
proof (induction xs arbitrary: names)
  case Nil
  then show ?case by simp
next
  case (Cons x xs)
  then obtain n ns where "names = n # ns" by (cases names) auto
  with Cons show ?case by (simp add: ebind_def)
qed

lemma actors_cast:
  assumes "map_of kvs ''credits'' = Some (JObj c)" "map_of c ''cast'' = Some (JList cast)"
      and "cast \<noteq> []"
      and "map (\<lambda>a. subscript a ''name'') (take 3 cast) = map (\<lambda>n. Inr (JStr n)) names"
  shows "extract_actors (JObj kvs) = Inr (JStr (comma_join names))"
proof -
  have c: "c \<noteq> []" using assms(2) by auto
  have n: "names \<noteq> []" using assms(3,4) by (cases cast; cases names) auto
  show ?thesis
    using assms(1,2,3) c n emap_names [OF assms(4)] join_strings [of names]
    by (simp add: extract_actors_def ebind_def)
qed


lemma movie_entry_fields:
  "movie_entry e movie details = Inr (Some r) \<Longrightarrow>
   Inr r = ebind (extract_director details) (\<lambda>director.
           ebind (extract_actors details) (\<lambda>actors.
           ebind (extract_streaming e details) (\<lambda>streaming.
           ebind (extract_genres details) (\<lambda>(genres, genre_list).
             movie_record movie director actors genres streaming))))"
  by (auto simp: movie_entry_def ebind_def split: sum.splits if_splits prod.splits)

lemma movie_record_fields:
  "movie_record movie director actors genres streaming = Inr r \<Longrightarrow>
   subscript r ''director'' = Inr director \<and> subscript r ''actors'' = Inr actors \<and>
   subscript r ''genres'' = Inr genres \<and>
   subscript r ''providers'' = Inr (JObj [(''streaming'', JList streaming)])"
  by (auto simp: movie_record_def ebind_def split: sum.splits)

lemma tv_record_fields:
  "tv_record tv_show actors genres st streaming = Inr r \<Longrightarrow>
   subscript r ''actors'' = Inr actors \<and> subscript r ''genres'' = Inr genres \<and>
   subscript r ''providers'' = Inr (JObj [(''streaming'', JList streaming)])"
  by (auto simp: tv_record_def ebind_def split: sum.splits)

lemma movie_entry_director:
  assumes "movie_entry e movie details = Inr (Some r)"
  shows "subscript r ''director'' = extract_director details \<and>
         subscript r ''actors'' = extract_actors details \<and>
         (\<exists>streaming. extract_streaming e details = Inr streaming \<and>
            subscript r ''providers'' = Inr (JObj [(''streaming'', JList streaming)]))"
proof -
  from assms obtain director actors streaming genres genre_list where
    x: "extract_director details = Inr director" "extract_actors details = Inr actors"
       "extract_streaming e details = Inr streaming"
       "extract_genres details = Inr (genres, genre_list)"
       "movie_record movie director actors genres streaming = Inr r"
    by (auto simp: movie_entry_def ebind_def split: sum.splits if_splits prod.splits)
  from movie_record_fields [OF x(5)] x(1,2,3) show ?thesis by simp
qed

lemma tv_entry_actors:
  assumes "tv_entry e tv_show details = Inr (Some r)"
  shows "subscript r ''actors'' = extract_actors details \<and>
         (\<exists>streaming. extract_streaming e details = Inr streaming \<and>
            subscript r ''providers'' = Inr (JObj [(''streaming'', JList streaming)]))"
proof -
  from assms obtain actors streaming genres genre_list st where
    x: "extract_actors details = Inr actors"
       "extract_streaming e details = Inr streaming"
       "extract_genres details = Inr (genres, genre_list)"
       "tv_record tv_show actors genres st streaming = Inr r"
    by (auto simp: tv_entry_def ebind_def split: sum.splits if_splits prod.splits)
  from tv_record_fields [OF x(4)] x(1,2) show ?thesis by simp
qed

lemma emap_provider_entry:
  "map (\<lambda>p. (subscript p ''provider_name'', subscript p ''logo_path'')) ps
     = map (\<lambda>nl. (Inr (fst nl), Inr (snd nl))) entries \<Longrightarrow>
   emap (provider_entry e) ps = Inr (map (streaming_entry e) entries)"
proof (induction ps arbitrary: entries)
  case Nil
  then show ?case by simp
next
  case (Cons p ps)
  then obtain f fs where "entries = f # fs" by (cases entries) auto
  with Cons show ?case by (simp add: ebind_def provider_entry_def streaming_entry_def)
qed

lemma streaming_region_absent:
  assumes "dict_get (JObj kvs) ''watch/providers'' (JObj []) = Inr (JObj w)"
      and "dict_get (JObj w) ''results'' (JObj []) = Inr (JObj rs)"
      and "map_of rs ''US'' = None"
  shows "extract_streaming e (JObj kvs) = Inr []"
  using assms by (simp add: extract_streaming_def ebind_def)

lemma streaming_flatrate_absent:
  assumes "dict_get (JObj kvs) ''watch/providers'' (JObj []) = Inr (JObj w)"
      and "dict_get (JObj w) ''results'' (JObj []) = Inr (JObj rs)"
      and "map_of rs ''US'' = Some (JObj u)"
      and "map_of u ''flatrate'' = None"
  shows "extract_streaming e (JObj kvs) = Inr []"
  using assms by (simp add: extract_streaming_def ebind_def)

lemma streaming_flatrate:
  assumes "dict_get (JObj kvs) ''watch/providers'' (JObj []) = Inr (JObj w)"
      and "dict_get (JObj w) ''results'' (JObj []) = Inr (JObj rs)"
      and "map_of rs ''US'' = Some (JObj u)"
      and "map_of u ''flatrate'' = Some (JList ps)"
      and "map (\<lambda>p. (subscript p ''provider_name'', subscript p ''logo_path'')) ps
             = map (\<lambda>nl. (Inr (fst nl), Inr (snd nl))) entries"
  shows "extract_streaming e (JObj kvs) = Inr (map (streaming_entry e) entries)"
proof (cases ps)
  case Nil
  with assms show ?thesis by (simp add: extract_streaming_def ebind_def)
next
  case (Cons p ps')
  with assms(1-4) emap_provider_entry [OF assms(5), of e] show ?thesis
    by (simp add: extract_streaming_def ebind_def)
qed


lemma movie_entry_builds:
  assumes "extract_director details = Inr director" "extract_actors details = Inr actors"
      and "extract_streaming e details = Inr streaming"
      and "extract_genres details = Inr (genres, gl)" "\<not> excluded gl"
      and "movie_record movie director actors genres streaming = Inr r"
  shows "movie_entry e movie details = Inr (Some r) \<and>
         subscript r ''director'' = Inr director \<and> subscript r ''actors'' = Inr actors \<and>
         subscript r ''providers'' = Inr (JObj [(''streaming'', JList streaming)])"
  using assms movie_record_fields [OF assms(6)] by (simp add: movie_entry_def ebind_def)

lemma tv_entry_builds:
  assumes "extract_actors details = Inr actors"
      and "extract_streaming e details = Inr streaming"
      and "extract_genres details = Inr (genres, gl)" "\<not> excluded gl"
      and "tv_status details = Inr tv_status_info"
      and "tv_record tv_show actors genres tv_status_info streaming = Inr r"
  shows "tv_entry e tv_show details = Inr (Some r) \<and>
         subscript r ''actors'' = Inr actors \<and>
         subscript r ''providers'' = Inr (JObj [(''streaming'', JList streaming)])"
  using assms tv_record_fields [OF assms(6)] by (simp add: tv_entry_def ebind_def)

lemma demo_movie_entry:
  "case movie_entry demo_env demo_item (demo_details ''Action'') of
     Inr (Some r) \<Rightarrow>
       subscript r ''director'' = Inr (JStr ''D'') \<and>
       subscript r ''actors'' = Inr (JStr ''A, B, C'') \<and>
       subscript r ''providers'' = Inr (JObj [(''streaming'', JList
         [JObj [(''name'', JStr ''N''),
                (''logo'', JStr ''https://image.tmdb.org/t/p/original/n.png'')]])])
   | _ \<Rightarrow> False"
  by code_simp

lemma demo_tv_entry:
  "case tv_entry demo_env demo_item (demo_details ''Action'') of
     Inr (Some r) \<Rightarrow>
       subscript r ''actors'' = Inr (JStr ''A, B, C'') \<and>
       subscript r ''providers'' = Inr (JObj [(''streaming'', JList
         [JObj [(''name'', JStr ''N''),
                (''logo'', JStr ''https://image.tmdb.org/t/p/original/n.png'')]])])
   | _ \<Rightarrow> False"
  by code_simp

lemma demo_movie_record:
  "\<exists>r. movie_entry demo_env demo_item (demo_details ''Action'') = Inr (Some r) \<and>
       subscript r ''director'' = Inr (JStr ''D'') \<and>
       subscript r ''actors'' = Inr (JStr ''A, B, C'') \<and>
       subscript r ''providers'' = Inr (JObj [(''streaming'', JList
         [JObj [(''name'', JStr ''N''),
                (''logo'', JStr ''https://image.tmdb.org/t/p/original/n.png'')]])])"
  using demo_movie_entry by (auto split: sum.splits option.splits)

lemma demo_tv_record:
  "\<exists>r. tv_entry demo_env demo_item (demo_details ''Action'') = Inr (Some r) \<and>
       subscript r ''actors'' = Inr (JStr ''A, B, C'') \<and>
       subscript r ''providers'' = Inr (JObj [(''streaming'', JList
         [JObj [(''name'', JStr ''N''),
                (''logo'', JStr ''https://image.tmdb.org/t/p/original/n.png'')]])])"
  using demo_tv_entry by (auto split: sum.splits option.splits)

text \<open>
  Claim C6. For a payload that is a dict: without a \<^verbatim>\<open>credits\<close> key both fields are the
  sentinel \<^verbatim>\<open>N/A\<close>. With credits, the director is the name of the first crew entry whose
  job is exactly \<^verbatim>\<open>Director\<close> (crew entries being dicts), and \<^verbatim>\<open>N/A\<close> when there is no
  such entry or no crew; the actors are the names of the first three cast entries joined by
  a comma and a space, and \<^verbatim>\<open>N/A\<close> when the cast is absent or empty. These are the values
  the records carry.
\<close>

theorem director_and_actors:
  "(map_of kvs ''credits'' = None \<longrightarrow>
      extract_director (JObj kvs) = Inr (JStr ''N/A'') \<and>
      extract_actors (JObj kvs) = Inr (JStr ''N/A'')) \<and>
   (map_of kvs ''credits'' = Some (JObj c) \<and> map_of c ''crew'' = Some (JList crew) \<and>
    list_all is_object crew \<longrightarrow>
      extract_director (JObj kvs) =
        (case find has_job_director crew of
           None \<Rightarrow> Inr (JStr ''N/A'')
         | Some p \<Rightarrow> subscript p ''name'')) \<and>
   (map_of kvs ''credits'' = Some (JObj c) \<and>
    (map_of c ''crew'' = None \<or> map_of c ''crew'' = Some (JList [])) \<longrightarrow>
      extract_director (JObj kvs) = Inr (JStr ''N/A'')) \<and>
   (map_of kvs ''credits'' = Some (JObj c) \<and> map_of c ''cast'' = Some (JList cast) \<and>
    cast \<noteq> [] \<and>
    map (\<lambda>a. subscript a ''name'') (take 3 cast) = map (\<lambda>n. Inr (JStr n)) names \<longrightarrow>
      extract_actors (JObj kvs) = Inr (JStr (comma_join names))) \<and>
   (map_of kvs ''credits'' = Some (JObj c) \<and>
    (map_of c ''cast'' = None \<or> map_of c ''cast'' = Some (JList [])) \<longrightarrow>
      extract_actors (JObj kvs) = Inr (JStr ''N/A'')) \<and>
   (movie_entry e movie details = Inr (Some r) \<longrightarrow>
      subscript r ''director'' = extract_director details \<and>
      subscript r ''actors'' = extract_actors details) \<and>
   (tv_entry e tv_show details = Inr (Some r') \<longrightarrow>
      subscript r' ''actors'' = extract_actors details) \<and>
   (extract_director details = Inr director \<and> extract_actors details = Inr actors \<and>
    extract_streaming e details = Inr streaming \<and>
    extract_genres details = Inr (genres, gl) \<and> \<not> excluded gl \<and>
    movie_record movie director actors genres streaming = Inr built \<longrightarrow>
      movie_entry e movie details = Inr (Some built) \<and>
      subscript built ''director'' = Inr director \<and>
      subscript built ''actors'' = Inr actors) \<and>
   (extract_actors details = Inr actors \<and>
    extract_streaming e details = Inr streaming \<and>
    extract_genres details = Inr (genres, gl) \<and> \<not> excluded gl \<and>
    tv_status details = Inr tv_status_info \<and>
    tv_record tv_show actors genres tv_status_info streaming = Inr built' \<longrightarrow>
      tv_entry e tv_show details = Inr (Some built') \<and>
      subscript built' ''actors'' = Inr actors)"
proof (intro conjI impI)
  assume "map_of kvs ''credits'' = None"
  then show "extract_director (JObj kvs) = Inr (JStr ''N/A'')"
    and "extract_actors (JObj kvs) = Inr (JStr ''N/A'')"
    using no_credits by simp_all
next
  assume "map_of kvs ''credits'' = Some (JObj c) \<and> map_of c ''crew'' = Some (JList crew) \<and>
    list_all is_object crew"
  then show "extract_director (JObj kvs) =
        (case find has_job_director crew of
           None \<Rightarrow> Inr (JStr ''N/A'')
         | Some p \<Rightarrow> subscript p ''name'')"
    using director_crew by simp
next
  assume "map_of kvs ''credits'' = Some (JObj c) \<and>
    (map_of c ''crew'' = None \<or> map_of c ''crew'' = Some (JList []))"
  then show "extract_director (JObj kvs) = Inr (JStr ''N/A'')"
    using director_no_crew [of kvs c] by simp
next
  assume "map_of kvs ''credits'' = Some (JObj c) \<and> map_of c ''cast'' = Some (JList cast) \<and>
    cast \<noteq> [] \<and>
    map (\<lambda>a. subscript a ''name'') (take 3 cast) = map (\<lambda>n. Inr (JStr n)) names"
  then show "extract_actors (JObj kvs) = Inr (JStr (comma_join names))"
    using actors_cast [of kvs c cast names] by simp
next
  assume "map_of kvs ''credits'' = Some (JObj c) \<and>
    (map_of c ''cast'' = None \<or> map_of c ''cast'' = Some (JList []))"
  then show "extract_actors (JObj kvs) = Inr (JStr ''N/A'')"
    using actors_no_cast [of kvs c] by simp
next
  assume "movie_entry e movie details = Inr (Some r)"
  from movie_entry_director [OF this]
  show "subscript r ''director'' = extract_director details"
    and "subscript r ''actors'' = extract_actors details" by simp_all
next
  assume "tv_entry e tv_show details = Inr (Some r')"
  from tv_entry_actors [OF this]
  show "subscript r' ''actors'' = extract_actors details" by simp
next
  assume "extract_director details = Inr director \<and> extract_actors details = Inr actors \<and>
    extract_streaming e details = Inr streaming \<and>
    extract_genres details = Inr (genres, gl) \<and> \<not> excluded gl \<and>
    movie_record movie director actors genres streaming = Inr built"
  then have "movie_entry e movie details = Inr (Some built) \<and>
         subscript built ''director'' = Inr director \<and> subscript built ''actors'' = Inr actors \<and>
         subscript built ''providers'' = Inr (JObj [(''streaming'', JList streaming)])"
    by (intro movie_entry_builds [of details director actors e streaming genres gl movie built])
       simp_all
  then show "movie_entry e movie details = Inr (Some built)"
    and "subscript built ''director'' = Inr director"
    and "subscript built ''actors'' = Inr actors" by simp_all
next
  assume "extract_actors details = Inr actors \<and>
    extract_streaming e details = Inr streaming \<and>
    extract_genres details = Inr (genres, gl) \<and> \<not> excluded gl \<and>
    tv_status details = Inr tv_status_info \<and>
    tv_record tv_show actors genres tv_status_info streaming = Inr built'"
  then have "tv_entry e tv_show details = Inr (Some built') \<and>
         subscript built' ''actors'' = Inr actors \<and>
         subscript built' ''providers'' = Inr (JObj [(''streaming'', JList streaming)])"
    by (intro tv_entry_builds [of details actors e streaming genres gl tv_status_info tv_show built'])
       simp_all
  then show "tv_entry e tv_show details = Inr (Some built')"
    and "subscript built' ''actors'' = Inr actors" by simp_all
qed

theorem director_and_actors_witness:
  "extract_director (demo_details ''Action'') = Inr (JStr ''D'') \<and>
   extract_actors (demo_details ''Action'') = Inr (JStr ''A, B, C'') \<and>
   extract_director (JObj []) = Inr (JStr ''N/A'') \<and>
   extract_actors (JObj []) = Inr (JStr ''N/A'') \<and>
   (\<exists>r. movie_entry demo_env demo_item (demo_details ''Action'') = Inr (Some r) \<and>
      subscript r ''director'' = Inr (JStr ''D'') \<and>
      subscript r ''actors'' = Inr (JStr ''A, B, C'')) \<and>
   (\<exists>r. tv_entry demo_env demo_item (demo_details ''Action'') = Inr (Some r) \<and>
      subscript r ''actors'' = Inr (JStr ''A, B, C''))"
proof -
  note t = director_and_actors [where kvs = "demo_kvs ''Action''" and c = demo_credits
      and crew = demo_crew and cast = demo_cast and names = "[''A'', ''B'', ''C'']"]
  have d: "extract_director (demo_details ''Action'') = Inr (JStr ''D'')"
    using t by (simp add: demo_details_def demo_kvs_def demo_credits_def demo_crew_def
        demo_cast_def is_object_def has_job_director_def)
  have a: "extract_actors (demo_details ''Action'') = Inr (JStr ''A, B, C'')"
    using t by (simp add: demo_details_def demo_kvs_def demo_credits_def demo_crew_def
        demo_cast_def)
  have n: "extract_director (JObj []) = Inr (JStr ''N/A'') \<and>
           extract_actors (JObj []) = Inr (JStr ''N/A'')"
    using director_and_actors [where kvs = "[]"] by simp
  from demo_movie_record obtain r where
    r: "movie_entry demo_env demo_item (demo_details ''Action'') = Inr (Some r)" by blast
  have rd: "subscript r ''director'' = Inr (JStr ''D'') \<and>
            subscript r ''actors'' = Inr (JStr ''A, B, C'')"
    using director_and_actors [where e = demo_env and movie = demo_item
        and details = "demo_details ''Action''" and r = r] r d a by simp
  from demo_tv_record obtain r' where
    r': "tv_entry demo_env demo_item (demo_details ''Action'') = Inr (Some r')" by blast
  have ra: "subscript r' ''actors'' = Inr (JStr ''A, B, C'')"
    using director_and_actors [where e = demo_env and tv_show = demo_item
        and details = "demo_details ''Action''" and r' = r'] r' a by simp
  from d a n r rd r' ra show ?thesis by blast
qed


lemma streaming_entry_string:
  "streaming_entry e (n, JStr path)
     = JObj [(''name'', n), (''logo'', JStr (''https://image.tmdb.org/t/p/original'' @ path))]"
  by (simp add: streaming_entry_def py_format_def IMAGE_BASE_def)

text \<open>
  Claim C7. The streaming list comes from the \<^verbatim>\<open>flatrate\<close> list of the region \<^verbatim>\<open>US\<close>: one
  entry per provider, with its name and with the logo path appended to the fixed image
  base. It is empty when the region or the \<^verbatim>\<open>flatrate\<close> key is absent. The records carry
  this list.
\<close>

theorem streaming_providers:
  "(dict_get (JObj kvs) ''watch/providers'' (JObj []) = Inr (JObj w) \<and>
    dict_get (JObj w) ''results'' (JObj []) = Inr (JObj rs) \<and>
    map_of rs ''US'' = None \<longrightarrow>
      extract_streaming e (JObj kvs) = Inr []) \<and>
   (dict_get (JObj kvs) ''watch/providers'' (JObj []) = Inr (JObj w) \<and>
    dict_get (JObj w) ''results'' (JObj []) = Inr (JObj rs) \<and>
    map_of rs ''US'' = Some (JObj u) \<and> map_of u ''flatrate'' = None \<longrightarrow>
      extract_streaming e (JObj kvs) = Inr []) \<and>
   (dict_get (JObj kvs) ''watch/providers'' (JObj []) = Inr (JObj w) \<and>
    dict_get (JObj w) ''results'' (JObj []) = Inr (JObj rs) \<and>
    map_of rs ''US'' = Some (JObj u) \<and> map_of u ''flatrate'' = Some (JList ps) \<and>
    map (\<lambda>p. (subscript p ''provider_name'', subscript p ''logo_path'')) ps
      = map (\<lambda>nl. (Inr (fst nl), Inr (snd nl))) entries \<longrightarrow>
      extract_streaming e (JObj kvs) = Inr (map (streaming_entry e) entries)) \<and>
   streaming_entry e (n, JStr path)
     = JObj [(''name'', n), (''logo'', JStr (''https://image.tmdb.org/t/p/original'' @ path))] \<and>
   (movie_entry e movie details = Inr (Some r) \<longrightarrow>
      (\<exists>streaming. extract_streaming e details = Inr streaming \<and>
         subscript r ''providers'' = Inr (JObj [(''streaming'', JList streaming)]))) \<and>
   (tv_entry e tv_show details = Inr (Some r') \<longrightarrow>
      (\<exists>streaming. extract_streaming e details = Inr streaming \<and>
         subscript r' ''providers'' = Inr (JObj [(''streaming'', JList streaming)]))) \<and>
   (extract_director details = Inr director \<and> extract_actors details = Inr actors \<and>
    extract_streaming e details = Inr provided \<and>
    extract_genres details = Inr (genres, gl) \<and> \<not> excluded gl \<and>
    movie_record movie director actors genres provided = Inr built \<longrightarrow>
      movie_entry e movie details = Inr (Some built) \<and>
      subscript built ''providers'' = Inr (JObj [(''streaming'', JList provided)])) \<and>
   (extract_actors details = Inr actors \<and>
    extract_streaming e details = Inr provided \<and>
    extract_genres details = Inr (genres, gl) \<and> \<not> excluded gl \<and>
    tv_status details = Inr tv_status_info \<and>
    tv_record tv_show actors genres tv_status_info provided = Inr built' \<longrightarrow>
      tv_entry e tv_show details = Inr (Some built') \<and>
      subscript built' ''providers'' = Inr (JObj [(''streaming'', JList provided)]))"
proof (intro conjI impI)
  assume "dict_get (JObj kvs) ''watch/providers'' (JObj []) = Inr (JObj w) \<and>
    dict_get (JObj w) ''results'' (JObj []) = Inr (JObj rs) \<and>
    map_of rs ''US'' = None"
  then show "extract_streaming e (JObj kvs) = Inr []"
    using streaming_region_absent [of kvs w rs e] by simp
next
  assume "dict_get (JObj kvs) ''watch/providers'' (JObj []) = Inr (JObj w) \<and>
    dict_get (JObj w) ''results'' (JObj []) = Inr (JObj rs) \<and>
    map_of rs ''US'' = Some (JObj u) \<and> map_of u ''flatrate'' = None"
  then show "extract_streaming e (JObj kvs) = Inr []"
    using streaming_flatrate_absent [of kvs w rs u e] by simp
next
  assume "dict_get (JObj kvs) ''watch/providers'' (JObj []) = Inr (JObj w) \<and>
    dict_get (JObj w) ''results'' (JObj []) = Inr (JObj rs) \<and>
    map_of rs ''US'' = Some (JObj u) \<and> map_of u ''flatrate'' = Some (JList ps) \<and>
    map (\<lambda>p. (subscript p ''provider_name'', subscript p ''logo_path'')) ps
      = map (\<lambda>nl. (Inr (fst nl), Inr (snd nl))) entries"
  then show "extract_streaming e (JObj kvs) = Inr (map (streaming_entry e) entries)"
    using streaming_flatrate [of kvs w rs u ps entries e] by simp
next
  show "streaming_entry e (n, JStr path)
     = JObj [(''name'', n), (''logo'', JStr (''https://image.tmdb.org/t/p/original'' @ path))]"
    by (rule streaming_entry_string)
next
  assume "movie_entry e movie details = Inr (Some r)"
  from movie_entry_director [OF this]
  show "\<exists>streaming. extract_streaming e details = Inr streaming \<and>
         subscript r ''providers'' = Inr (JObj [(''streaming'', JList streaming)])" by simp
next
  assume "tv_entry e tv_show details = Inr (Some r')"
  from tv_entry_actors [OF this]
  show "\<exists>streaming. extract_streaming e details = Inr streaming \<and>
         subscript r' ''providers'' = Inr (JObj [(''streaming'', JList streaming)])" by simp
next
  assume "extract_director details = Inr director \<and> extract_actors details = Inr actors \<and>
    extract_streaming e details = Inr provided \<and>
    extract_genres details = Inr (genres, gl) \<and> \<not> excluded gl \<and>
    movie_record movie director actors genres provided = Inr built"
  then have "movie_entry e movie details = Inr (Some built) \<and>
         subscript built ''director'' = Inr director \<and> subscript built ''actors'' = Inr actors \<and>
         subscript built ''providers'' = Inr (JObj [(''streaming'', JList provided)])"
    by (intro movie_entry_builds [of details director actors e provided genres gl movie built])
       simp_all
  then show "movie_entry e movie details = Inr (Some built)"
    and "subscript built ''providers'' = Inr (JObj [(''streaming'', JList provided)])"
    by simp_all
next
  assume "extract_actors details = Inr actors \<and>
    extract_streaming e details = Inr provided \<and>
    extract_genres details = Inr (genres, gl) \<and> \<not> excluded gl \<and>
    tv_status details = Inr tv_status_info \<and>
    tv_record tv_show actors genres tv_status_info provided = Inr built'"
  then have "tv_entry e tv_show details = Inr (Some built') \<and>
         subscript built' ''actors'' = Inr actors \<and>
         subscript built' ''providers'' = Inr (JObj [(''streaming'', JList provided)])"
    by (intro tv_entry_builds [of details actors e provided genres gl tv_status_info tv_show built'])
       simp_all
  then show "tv_entry e tv_show details = Inr (Some built')"
    and "subscript built' ''providers'' = Inr (JObj [(''streaming'', JList provided)])"
    by simp_all
qed

theorem streaming_providers_witness:
  "extract_streaming paged_env (demo_details ''Action'')
     = Inr [JObj [(''name'', JStr ''N''),
                  (''logo'', JStr ''https://image.tmdb.org/t/p/original/n.png'')]] \<and>
   extract_streaming paged_env (JObj [(''watch/providers'', JObj [(''results'', JObj [])])])
     = Inr [] \<and>
   (\<exists>r. movie_entry demo_env demo_item (demo_details ''Action'') = Inr (Some r) \<and>
      extract_streaming demo_env (demo_details ''Action'')
        = Inr [JObj [(''name'', JStr ''N''),
                     (''logo'', JStr ''https://image.tmdb.org/t/p/original/n.png'')]] \<and>
      subscript r ''providers'' = Inr (JObj [(''streaming'', JList
         [JObj [(''name'', JStr ''N''),
                (''logo'', JStr ''https://image.tmdb.org/t/p/original/n.png'')]])])) \<and>
   (\<exists>r. tv_entry demo_env demo_item (demo_details ''Action'') = Inr (Some r) \<and>
      subscript r ''providers'' = Inr (JObj [(''streaming'', JList
         [JObj [(''name'', JStr ''N''),
                (''logo'', JStr ''https://image.tmdb.org/t/p/original/n.png'')]])]))"
proof -
  have a: "extract_streaming paged_env (demo_details ''Action'')
             = Inr (map (streaming_entry paged_env) [(JStr ''N'', JStr ''/n.png'')])"
    using streaming_providers [where kvs = "demo_kvs ''Action''"
        and w = "[(''results'', JObj [(''US'', JObj demo_us)])]"
        and rs = "[(''US'', JObj demo_us)]" and u = demo_us and ps = demo_flatrate
        and entries = "[(JStr ''N'', JStr ''/n.png'')]" and e = paged_env]
    by (simp add: demo_details_def demo_kvs_def demo_us_def demo_flatrate_def)
  have b: "streaming_entry paged_env (JStr ''N'', JStr ''/n.png'')
     = JObj [(''name'', JStr ''N''),
             (''logo'', JStr (''https://image.tmdb.org/t/p/original'' @ ''/n.png''))]"
    using streaming_providers [where e = paged_env and n = "JStr ''N''" and path = "''/n.png''"]
    by blast
  have c: "extract_streaming paged_env (JObj [(''watch/providers'', JObj [(''results'', JObj [])])])
     = Inr []"
    using streaming_providers [where kvs = "[(''watch/providers'', JObj [(''results'', JObj [])])]"
        and w = "[(''results'', JObj [])]" and rs = "[]" and e = paged_env]
    by simp
  have a': "extract_streaming demo_env (demo_details ''Action'')
             = Inr (map (streaming_entry demo_env) [(JStr ''N'', JStr ''/n.png'')])"
    using streaming_providers [where kvs = "demo_kvs ''Action''"
        and w = "[(''results'', JObj [(''US'', JObj demo_us)])]"
        and rs = "[(''US'', JObj demo_us)]" and u = demo_us and ps = demo_flatrate
        and entries = "[(JStr ''N'', JStr ''/n.png'')]" and e = demo_env]
    by (simp add: demo_details_def demo_kvs_def demo_us_def demo_flatrate_def)
  have b': "streaming_entry demo_env (JStr ''N'', JStr ''/n.png'')
     = JObj [(''name'', JStr ''N''),
             (''logo'', JStr (''https://image.tmdb.org/t/p/original'' @ ''/n.png''))]"
    using streaming_providers [where e = demo_env and n = "JStr ''N''" and path = "''/n.png''"]
    by blast
  have st: "extract_streaming demo_env (demo_details ''Action'')
        = Inr [JObj [(''name'', JStr ''N''),
                     (''logo'', JStr ''https://image.tmdb.org/t/p/original/n.png'')]]"
    using a' b' by simp
  from demo_movie_record obtain r where
    r: "movie_entry demo_env demo_item (demo_details ''Action'') = Inr (Some r)" by blast
  have rp: "subscript r ''providers'' = Inr (JObj [(''streaming'', JList
         [JObj [(''name'', JStr ''N''),
                (''logo'', JStr ''https://image.tmdb.org/t/p/original/n.png'')]])])"
    using streaming_providers [where e = demo_env and movie = demo_item
        and details = "demo_details ''Action''" and r = r] r st by simp
  from demo_tv_record obtain r' where
    r': "tv_entry demo_env demo_item (demo_details ''Action'') = Inr (Some r')" by blast
  have rp': "subscript r' ''providers'' = Inr (JObj [(''streaming'', JList
         [JObj [(''name'', JStr ''N''),
                (''logo'', JStr ''https://image.tmdb.org/t/p/original/n.png'')]])])"
    using streaming_providers [where e = demo_env and tv_show = demo_item
        and details = "demo_details ''Action''" and r' = r'] r' st by simp
  have m: "\<exists>r. movie_entry demo_env demo_item (demo_details ''Action'') = Inr (Some r) \<and>
      extract_streaming demo_env (demo_details ''Action'')
        = Inr [JObj [(''name'', JStr ''N''),
                     (''logo'', JStr ''https://image.tmdb.org/t/p/original/n.png'')]] \<and>
      subscript r ''providers'' = Inr (JObj [(''streaming'', JList
         [JObj [(''name'', JStr ''N''),
                (''logo'', JStr ''https://image.tmdb.org/t/p/original/n.png'')]])])"
    using r st rp by (intro exI [of _ r] conjI)
  have t: "\<exists>r. tv_entry demo_env demo_item (demo_details ''Action'') = Inr (Some r) \<and>
      subscript r ''providers'' = Inr (JObj [(''streaming'', JList
         [JObj [(''name'', JStr ''N''),
                (''logo'', JStr ''https://image.tmdb.org/t/p/original/n.png'')]])])"
    using r' rp' by (intro exI [of _ r'] conjI)
  from a b c have "extract_streaming paged_env (demo_details ''Action'')
     = Inr [JObj [(''name'', JStr ''N''),
                  (''logo'', JStr ''https://image.tmdb.org/t/p/original/n.png'')]] \<and>
   extract_streaming paged_env (JObj [(''watch/providers'', JObj [(''results'', JObj [])])])
     = Inr []" by simp
  with m t show ?thesis by (intro conjI) simp_all
qed

section \<open>The processing loops and the run\<close>

lemma kept_Nil: "kept entry [] = []"
  by (simp add: kept_def)

lemma kept_Cons: "kept entry (p # ps) = kept entry [p] @ kept entry ps"
  by (simp add: kept_def)

lemma bind_Inr:
  "bind m f s = (Inr y, s') \<Longrightarrow> \<exists>x s1. m s = (Inr x, s1) \<and> f x s1 = (Inr y, s')"
  by (auto simp: bind_def split: prod.splits sum.splits)

lemma rate_limited_get_file: "data_json (snd (rate_limited_get e url s)) = data_json s"
  by (simp add: rate_limited_get_def acquire_def Let_def split: http_result.splits option.splits)

lemma item_step_Inr:
  assumes "item_step e media entry item s = (Inr x, s')"
  shows "\<exists>ident d. subscript item ''id'' = Inr ident \<and>
           body_of (respond e (length (sent s)) (details_url e ident media)) = Some d \<and>
           entry item d = Inr x \<and> sent s' = sent s @ [details_url e ident media] \<and>
           data_json s' = data_json s"
proof -
  from assms obtain ident where i: "subscript item ''id'' = Inr ident"
    by (cases "subscript item ''id''") (auto simp: item_step_def bind_def lift_def)
  with assms obtain d s1 where g: "rate_limited_get e (details_url e ident media) s = (Inr d, s1)"
    and l: "entry item d = Inr x" and s1: "s' = s1"
    by (auto simp: item_step_def bind_def lift_def fetch_item_details_def split: prod.splits sum.splits)
  from rate_limited_get_Inr [OF g] rate_limited_get_file [of e "details_url e ident media" s] g i l s1
  show ?thesis by auto
qed

lemma for_items_Inr:
  "for_items (item_step e media entry) items out s = (Inr res, s') \<Longrightarrow>
   \<exists>ds. length ds = length items \<and>
     (\<forall>i<length items. \<exists>ident. subscript (items ! i) ''id'' = Inr ident \<and>
        body_of (respond e (length (sent s) + i) (details_url e ident media)) = Some (ds ! i)) \<and>
     res = out @ kept entry (zip items ds) \<and>
     length (sent s') = length (sent s) + length items \<and>
     data_json s' = data_json s"
proof (induction items arbitrary: out s)
  case Nil
  then show ?case by (simp add: kept_def)
next
  case (Cons item items)
  obtain x s1 where st: "item_step e media entry item s = (x, s1)"
    by (cases "item_step e media entry item s")
  with Cons.prems obtain y where x: "x = Inr y" by (cases x) auto
  from item_step_Inr [OF st [unfolded x]] obtain ident d where
    i: "subscript item ''id'' = Inr ident"
    and b: "body_of (respond e (length (sent s)) (details_url e ident media)) = Some d"
    and en: "entry item d = Inr y"
    and se: "sent s1 = sent s @ [details_url e ident media]"
    and fi: "data_json s1 = data_json s"
    by blast
  define out1 where "out1 = out @ kept entry [(item, d)]"
  have rec: "for_items (item_step e media entry) items out1 s1 = (Inr res, s')"
    using Cons.prems st x en by (cases y) (simp_all add: out1_def kept_def)
  from Cons.IH [OF rec] obtain ds where
    l: "length ds = length items"
    and p: "\<forall>i<length items. \<exists>ident. subscript (items ! i) ''id'' = Inr ident \<and>
        body_of (respond e (length (sent s1) + i) (details_url e ident media)) = Some (ds ! i)"
    and r: "res = out1 @ kept entry (zip items ds)"
    and n: "length (sent s') = length (sent s1) + length items"
    and f: "data_json s' = data_json s1"
    by blast
  show ?case
  proof (intro exI [of _ "d # ds"] conjI allI impI)
    show "length (d # ds) = length (item # items)" using l by simp
  next
    fix k assume "k < length (item # items)"
    then show "\<exists>ident. subscript ((item # items) ! k) ''id'' = Inr ident \<and>
        body_of (respond e (length (sent s) + k) (details_url e ident media)) = Some ((d # ds) ! k)"
      using i b p se by (cases k) auto
  next
    show "res = out @ kept entry (zip (item # items) (d # ds))"
      using r kept_Cons [of entry "(item, d)" "zip items ds"] by (simp add: out1_def)
  next
    show "length (sent s') = length (sent s) + length (item # items)" using n se by simp
  next
    show "data_json s' = data_json s" using f fi by simp
  qed
qed

lemma excluded_iff:
  "excluded gl \<longleftrightarrow>
   (\<exists>g\<in>set gl. g \<in> {JStr ''Animation'', JStr ''Music'', JStr ''Documentary'', JStr ''Kids'',
                      JStr ''Reality''})"
  by (auto simp: excluded_def EXCLUDED_GENRES_def list_ex_iff)

lemma excluded_movie_entry:
  "extract_genres d = Inr (genres, gl) \<Longrightarrow> excluded gl \<Longrightarrow> movie_entry e item d \<noteq> Inr (Some r)"
  by (auto simp: movie_entry_def ebind_def split: sum.splits)

lemma excluded_tv_entry:
  "extract_genres d = Inr (genres, gl) \<Longrightarrow> excluded gl \<Longrightarrow> tv_entry e item d \<noteq> Inr (Some r)"
  by (auto simp: tv_entry_def ebind_def split: sum.splits)

lemma excluded_kept:
  assumes "extract_genres d = Inr (genres, gl)" "excluded gl"
  shows "kept (movie_entry e) [(item, d)] = []" and "kept (tv_entry e) [(item, d)] = []"
  using excluded_movie_entry [OF assms, of e item] excluded_tv_entry [OF assms, of e item]
  by (auto simp: kept_def split: sum.splits option.splits)

lemma run_Inr:
  assumes "run e s = (Inr (), s')"
  shows "\<exists>movies s1 movies_data s2 tv_shows s3 tv_data s4.
     fetch_all_pages e movies_url MAX_PAGES_PER_TYPE s = (Inr movies, s1) \<and>
     for_items (movie_step e) movies [] s1 = (Inr movies_data, s2) \<and>
     fetch_all_pages e tv_url MAX_PAGES_PER_TYPE s2 = (Inr tv_shows, s3) \<and>
     for_items (tv_step e) tv_shows [] s3 = (Inr tv_data, s4) \<and>
     s' = s4\<lparr>data_json := Some (output_data e (clock s) (clock s4) movies_data tv_data)\<rparr>"
proof -
  from assms have tok: "token_set e" by (auto simp: run_def split: if_splits)
  with assms have b: "bind (fetch_all_pages e movies_url MAX_PAGES_PER_TYPE) (\<lambda>movies.
        bind (for_items (movie_step e) movies []) (\<lambda>movies_data.
        bind (fetch_all_pages e tv_url MAX_PAGES_PER_TYPE) (\<lambda>tv_shows.
        bind (for_items (tv_step e) tv_shows []) (\<lambda>tv_data.
          (\<lambda>s'. write_output (output_data e (clock s) (clock s') movies_data tv_data) s'))))) s
      = (Inr (), s')"
    by (simp add: run_def Let_def)
  from bind_Inr [OF b] obtain movies s1 where
    m: "fetch_all_pages e movies_url MAX_PAGES_PER_TYPE s = (Inr movies, s1)"
    and b1: "bind (for_items (movie_step e) movies []) (\<lambda>movies_data.
        bind (fetch_all_pages e tv_url MAX_PAGES_PER_TYPE) (\<lambda>tv_shows.
        bind (for_items (tv_step e) tv_shows []) (\<lambda>tv_data.
          (\<lambda>s'. write_output (output_data e (clock s) (clock s') movies_data tv_data) s')))) s1
      = (Inr (), s')"
    by blast
  from bind_Inr [OF b1] obtain movies_data s2 where
    md: "for_items (movie_step e) movies [] s1 = (Inr movies_data, s2)"
    and b2: "bind (fetch_all_pages e tv_url MAX_PAGES_PER_TYPE) (\<lambda>tv_shows.
        bind (for_items (tv_step e) tv_shows []) (\<lambda>tv_data.
          (\<lambda>s'. write_output (output_data e (clock s) (clock s') movies_data tv_data) s'))) s2
      = (Inr (), s')"
    by blast
  from bind_Inr [OF b2] obtain tv_shows s3 where
    t: "fetch_all_pages e tv_url MAX_PAGES_PER_TYPE s2 = (Inr tv_shows, s3)"
    and b3: "bind (for_items (tv_step e) tv_shows []) (\<lambda>tv_data.
          (\<lambda>s'. write_output (output_data e (clock s) (clock s') movies_data tv_data) s')) s3
      = (Inr (), s')"
    by blast
  from bind_Inr [OF b3] obtain tv_data s4 where
    td: "for_items (tv_step e) tv_shows [] s3 = (Inr tv_data, s4)"
    and w: "write_output (output_data e (clock s) (clock s4) movies_data tv_data) s4 = (Inr (), s')"
    by blast
  from w have "s' = s4\<lparr>data_json := Some (output_data e (clock s) (clock s4) movies_data tv_data)\<rparr>"
    by (simp add: write_output_def)
  with m md t td show ?thesis by blast
qed


lemma run_output:
  assumes "run e s = (Inr (), s')"
  obtains movies s1 mds tv_shows s2 s3 sds t where
    "fetch_all_pages e movies_url MAX_PAGES_PER_TYPE s = (Inr movies, s1)"
    "length mds = length movies"
    "\<forall>i<length movies. \<exists>ident. subscript (movies ! i) ''id'' = Inr ident \<and>
        body_of (respond e (length (sent s1) + i) (details_url e ident ''movie'')) = Some (mds ! i)"
    "fetch_all_pages e tv_url MAX_PAGES_PER_TYPE s2 = (Inr tv_shows, s3)"
    "length sds = length tv_shows"
    "\<forall>i<length tv_shows. \<exists>ident. subscript (tv_shows ! i) ''id'' = Inr ident \<and>
        body_of (respond e (length (sent s3) + i) (details_url e ident ''tv'')) = Some (sds ! i)"
    "data_json s' = Some (output_data e (clock s) t
        (kept (movie_entry e) (zip movies mds)) (kept (tv_entry e) (zip tv_shows sds)))"
proof -
  from run_Inr [OF assms] obtain movies s1 movies_data s2 tv_shows s3 tv_data s4 where
    m: "fetch_all_pages e movies_url MAX_PAGES_PER_TYPE s = (Inr movies, s1)" and
    md: "for_items (movie_step e) movies [] s1 = (Inr movies_data, s2)" and
    t: "fetch_all_pages e tv_url MAX_PAGES_PER_TYPE s2 = (Inr tv_shows, s3)" and
    td: "for_items (tv_step e) tv_shows [] s3 = (Inr tv_data, s4)" and
    s': "s' = s4\<lparr>data_json := Some (output_data e (clock s) (clock s4) movies_data tv_data)\<rparr>"
    by blast
  from for_items_Inr [OF md [unfolded movie_step_def]] obtain mds where
    a1: "length mds = length movies" and
    a2: "\<forall>i<length movies. \<exists>ident. subscript (movies ! i) ''id'' = Inr ident \<and>
          body_of (respond e (length (sent s1) + i) (details_url e ident ''movie'')) = Some (mds ! i)" and
    a3: "movies_data = [] @ kept (movie_entry e) (zip movies mds)"
    by blast
  from for_items_Inr [OF td [unfolded tv_step_def]] obtain sds where
    b1: "length sds = length tv_shows" and
    b2: "\<forall>i<length tv_shows. \<exists>ident. subscript (tv_shows ! i) ''id'' = Inr ident \<and>
          body_of (respond e (length (sent s3) + i) (details_url e ident ''tv'')) = Some (sds ! i)" and
    b3: "tv_data = [] @ kept (tv_entry e) (zip tv_shows sds)"
    by blast
  have dj: "data_json s' = Some (output_data e (clock s) (clock s4)
        (kept (movie_entry e) (zip movies mds)) (kept (tv_entry e) (zip tv_shows sds)))"
    using s' a3 b3 by simp
  show ?thesis by (rule that [OF m a1 a2 t b1 b2 dj])
qed

lemma excluded_drops:
  "\<forall>item d genres gl.
        extract_genres d = Inr (genres, gl) \<and>
        (\<exists>g\<in>set gl. g \<in> {JStr ''Animation'', JStr ''Music'', JStr ''Documentary'',
                           JStr ''Kids'', JStr ''Reality''}) \<longrightarrow>
        kept (movie_entry e) [(item, d)] = [] \<and> kept (tv_entry e) [(item, d)] = []"
proof (intro allI impI)
  fix item d genres gl
  assume a: "extract_genres d = Inr (genres, gl) \<and>
        (\<exists>g\<in>set gl. g \<in> {JStr ''Animation'', JStr ''Music'', JStr ''Documentary'',
                           JStr ''Kids'', JStr ''Reality''})"
  then have "excluded gl" by (simp only: excluded_iff)
  with a excluded_kept [of d genres gl e item]
  show "kept (movie_entry e) [(item, d)] = [] \<and> kept (tv_entry e) [(item, d)] = []" by simp
qed

text \<open>
  Claim C3. In a run that completes, the two output lists are the records kept from the
  discovered items paired with their detail payloads, in discovery order, and the document
  written is built from exactly these lists (its counts are their lengths). A pair whose
  payload has a genre list containing one of Animation, Music, Documentary, Kids, Reality
  contributes no record, in either category and whatever the discovered item carries.
\<close>

theorem genre_filter:
  assumes "run e s = (Inr (), s')"
  shows "\<exists>movies s1 mds tv_shows s2 s3 sds t.
     fetch_all_pages e movies_url MAX_PAGES_PER_TYPE s = (Inr movies, s1) \<and>
     length mds = length movies \<and>
     (\<forall>i<length movies. \<exists>ident. subscript (movies ! i) ''id'' = Inr ident \<and>
        body_of (respond e (length (sent s1) + i) (details_url e ident ''movie'')) = Some (mds ! i)) \<and>
     fetch_all_pages e tv_url MAX_PAGES_PER_TYPE s2 = (Inr tv_shows, s3) \<and>
     length sds = length tv_shows \<and>
     (\<forall>i<length tv_shows. \<exists>ident. subscript (tv_shows ! i) ''id'' = Inr ident \<and>
        body_of (respond e (length (sent s3) + i) (details_url e ident ''tv'')) = Some (sds ! i)) \<and>
     data_json s' = Some (output_data e (clock s) t
        (kept (movie_entry e) (zip movies mds)) (kept (tv_entry e) (zip tv_shows sds))) \<and>
     (\<forall>item d genres gl.
        extract_genres d = Inr (genres, gl) \<and>
        (\<exists>g\<in>set gl. g \<in> {JStr ''Animation'', JStr ''Music'', JStr ''Documentary'',
                           JStr ''Kids'', JStr ''Reality''}) \<longrightarrow>
        kept (movie_entry e) [(item, d)] = [] \<and> kept (tv_entry e) [(item, d)] = [])"
proof -
  from assms obtain movies s1 mds tv_shows s2 s3 sds t where
    m: "fetch_all_pages e movies_url MAX_PAGES_PER_TYPE s = (Inr movies, s1)" and
    a1: "length mds = length movies" and
    a2: "\<forall>i<length movies. \<exists>ident. subscript (movies ! i) ''id'' = Inr ident \<and>
        body_of (respond e (length (sent s1) + i) (details_url e ident ''movie'')) = Some (mds ! i)" and
    t: "fetch_all_pages e tv_url MAX_PAGES_PER_TYPE s2 = (Inr tv_shows, s3)" and
    b1: "length sds = length tv_shows" and
    b2: "\<forall>i<length tv_shows. \<exists>ident. subscript (tv_shows ! i) ''id'' = Inr ident \<and>
        body_of (respond e (length (sent s3) + i) (details_url e ident ''tv'')) = Some (sds ! i)" and
    dj: "data_json s' = Some (output_data e (clock s) t
        (kept (movie_entry e) (zip movies mds)) (kept (tv_entry e) (zip tv_shows sds)))"
    by (rule run_output)
  show ?thesis
    by (rule exI [of _ movies], rule exI [of _ s1], rule exI [of _ mds], rule exI [of _ tv_shows],
        rule exI [of _ s2], rule exI [of _ s3], rule exI [of _ sds], rule exI [of _ t],
        intro conjI)
       (rule m a1 a2 t b1 b2 dj excluded_drops)+
qed

lemma demo_run: "fst (run demo_env state0) = Inr ()"
  by code_simp

lemma demo_genres:
  "extract_genres (demo_details ''Documentary'')
     = Inr (JStr ''Documentary'', [JStr ''Documentary''])"
  by (simp add: extract_genres_def demo_details_def demo_kvs_def ebind_def)

theorem genre_filter_witness:
  "fst (run demo_env state0) = Inr () \<and>
   extract_genres (demo_details ''Documentary'')
     = Inr (JStr ''Documentary'', [JStr ''Documentary'']) \<and>
   kept (movie_entry demo_env) [(demo_item, demo_details ''Documentary'')] = [] \<and>
   kept (tv_entry demo_env) [(demo_item, demo_details ''Documentary'')] = [] \<and>
   (\<exists>movies mds tv_shows sds t.
      data_json (snd (run demo_env state0)) = Some (output_data demo_env (clock state0) t
        (kept (movie_entry demo_env) (zip movies mds))
        (kept (tv_entry demo_env) (zip tv_shows sds))))"
proof -
  have h: "run demo_env state0 = (Inr (), snd (run demo_env state0))"
    using demo_run by (metis prod.collapse)
  from genre_filter [OF h] obtain movies s1 mds tv_shows s2 s3 sds t where
    d: "data_json (snd (run demo_env state0)) = Some (output_data demo_env (clock state0) t
        (kept (movie_entry demo_env) (zip movies mds))
        (kept (tv_entry demo_env) (zip tv_shows sds)))"
    and x: "\<forall>item d genres gl.
        extract_genres d = Inr (genres, gl) \<and>
        (\<exists>g\<in>set gl. g \<in> {JStr ''Animation'', JStr ''Music'', JStr ''Documentary'',
                           JStr ''Kids'', JStr ''Reality''}) \<longrightarrow>
        kept (movie_entry demo_env) [(item, d)] = [] \<and> kept (tv_entry demo_env) [(item, d)] = []"
    by (elim exE conjE)
  have k: "kept (movie_entry demo_env) [(demo_item, demo_details ''Documentary'')] = [] \<and>
      kept (tv_entry demo_env) [(demo_item, demo_details ''Documentary'')] = []"
    by (rule x [rule_format, of "demo_details ''Documentary''" "JStr ''Documentary''"
          "[JStr ''Documentary'']" demo_item]) (simp add: demo_genres)
  have e: "\<exists>movies mds tv_shows sds t.
      data_json (snd (run demo_env state0)) = Some (output_data demo_env (clock state0) t
        (kept (movie_entry demo_env) (zip movies mds))
        (kept (tv_entry demo_env) (zip tv_shows sds)))"
    by (rule exI [of _ movies], rule exI [of _ mds], rule exI [of _ tv_shows],
        rule exI [of _ sds], rule exI [of _ t]) (rule d)
  from demo_run demo_genres k e show ?thesis by simp
qed

section \<open>The output document\<close>

lemma output_data_counts:
  "subscript (output_data e t0 t1 md td) ''movies'' = Inr (JList md) \<and>
   subscript (output_data e t0 t1 md td) ''tv_shows'' = Inr (JList td) \<and>
   ebind (subscript (output_data e t0 t1 md td) ''metadata'') (\<lambda>m. subscript m ''total_items'')
     = Inr (JInt (int (length md) + int (length td))) \<and>
   ebind (subscript (output_data e t0 t1 md td) ''metadata'') (\<lambda>m. subscript m ''total_movies'')
     = Inr (JInt (int (length md))) \<and>
   ebind (subscript (output_data e t0 t1 md td) ''metadata'') (\<lambda>m. subscript m ''total_tv'')
     = Inr (JInt (int (length td)))"
  by (simp add: output_data_def ebind_def)

text \<open>
  Claim C5. The document written by a run that completes has \<^verbatim>\<open>metadata.total_items\<close>
  equal to the length of \<^verbatim>\<open>movies\<close> plus the length of \<^verbatim>\<open>tv_shows\<close>, and
  \<^verbatim>\<open>total_movies\<close> and \<^verbatim>\<open>total_tv\<close> equal to the two lengths; the two lists are the
  records kept from the discovered items, so an item that the genre filter rejects is in
  neither count.
\<close>

theorem total_items_invariant:
  assumes "run e s = (Inr (), s')"
  shows "\<exists>doc movies_data tv_data.
     data_json s' = Some doc \<and>
     subscript doc ''movies'' = Inr (JList movies_data) \<and>
     subscript doc ''tv_shows'' = Inr (JList tv_data) \<and>
     ebind (subscript doc ''metadata'') (\<lambda>m. subscript m ''total_items'')
       = Inr (JInt (int (length movies_data) + int (length tv_data))) \<and>
     ebind (subscript doc ''metadata'') (\<lambda>m. subscript m ''total_movies'')
       = Inr (JInt (int (length movies_data))) \<and>
     ebind (subscript doc ''metadata'') (\<lambda>m. subscript m ''total_tv'')
       = Inr (JInt (int (length tv_data))) \<and>
     (\<exists>movies mds tv_shows sds.
        length mds = length movies \<and> length sds = length tv_shows \<and>
        movies_data = kept (movie_entry e) (zip movies mds) \<and>
        tv_data = kept (tv_entry e) (zip tv_shows sds))"
proof -
  from assms obtain movies s1 mds tv_shows s2 s3 sds t where
    a1: "length mds = length movies" and
    b1: "length sds = length tv_shows" and
    dj: "data_json s' = Some (output_data e (clock s) t
        (kept (movie_entry e) (zip movies mds)) (kept (tv_entry e) (zip tv_shows sds)))"
    by (rule run_output)
  define md where "md = kept (movie_entry e) (zip movies mds)"
  define td where "td = kept (tv_entry e) (zip tv_shows sds)"
  have p: "\<exists>movies mds tv_shows sds.
        length mds = length movies \<and> length sds = length tv_shows \<and>
        md = kept (movie_entry e) (zip movies mds) \<and>
        td = kept (tv_entry e) (zip tv_shows sds)"
    by (rule exI [of _ movies], rule exI [of _ mds], rule exI [of _ tv_shows], rule exI [of _ sds],
        intro conjI)
       (rule a1 b1 md_def td_def)+
  note c = output_data_counts [of e "clock s" t md td]
  have dj': "data_json s' = Some (output_data e (clock s) t md td)"
    using dj by (simp only: md_def td_def)
  from c have c1: "subscript (output_data e (clock s) t md td) ''movies'' = Inr (JList md)"
    and c2: "subscript (output_data e (clock s) t md td) ''tv_shows'' = Inr (JList td)"
    and c3: "ebind (subscript (output_data e (clock s) t md td) ''metadata'')
               (\<lambda>m. subscript m ''total_items'') = Inr (JInt (int (length md) + int (length td)))"
    and c4: "ebind (subscript (output_data e (clock s) t md td) ''metadata'')
               (\<lambda>m. subscript m ''total_movies'') = Inr (JInt (int (length md)))"
    and c5: "ebind (subscript (output_data e (clock s) t md td) ''metadata'')
               (\<lambda>m. subscript m ''total_tv'') = Inr (JInt (int (length td)))"
    by simp_all
  show ?thesis
    by (rule exI [of _ "output_data e (clock s) t md td"], rule exI [of _ md], rule exI [of _ td],
        intro conjI)
       (rule dj' c1 c2 c3 c4 c5 p)+
qed

lemma demo_counts:
  "map_option (\<lambda>doc. (subscript doc ''movies'', subscript doc ''tv_shows'',
       ebind (subscript doc ''metadata'') (\<lambda>m. subscript m ''total_movies''),
       ebind (subscript doc ''metadata'') (\<lambda>m. subscript m ''total_tv''),
       ebind (subscript doc ''metadata'') (\<lambda>m. subscript m ''total_items'')))
     (data_json (snd (run demo_env state0)))
   = (case (movie_entry demo_env demo_item (demo_details ''Action''),
            tv_entry demo_env demo_item (demo_details ''Action'')) of
        (Inr (Some m), Inr (Some t)) \<Rightarrow>
          Some (Inr (JList [m]), Inr (JList [t]), Inr (JInt 1), Inr (JInt 1), Inr (JInt 2))
      | _ \<Rightarrow> None)"
  by code_simp

theorem total_items_invariant_witness:
  "fst (run demo_env state0) = Inr () \<and>
   (\<exists>doc m t.
      data_json (snd (run demo_env state0)) = Some doc \<and>
      subscript doc ''movies'' = Inr (JList [m]) \<and>
      subscript doc ''tv_shows'' = Inr (JList [t]) \<and>
      ebind (subscript doc ''metadata'') (\<lambda>m. subscript m ''total_items'') = Inr (JInt 2))"
proof -
  have h: "run demo_env state0 = (Inr (), snd (run demo_env state0))"
    using demo_run by (metis prod.collapse)
  from total_items_invariant [OF h] obtain doc movies_data tv_data where
    d: "data_json (snd (run demo_env state0)) = Some doc" and
    m: "subscript doc ''movies'' = Inr (JList movies_data)" and
    t: "subscript doc ''tv_shows'' = Inr (JList tv_data)" and
    n: "ebind (subscript doc ''metadata'') (\<lambda>m. subscript m ''total_items'')
        = Inr (JInt (int (length movies_data) + int (length tv_data)))"
    by (elim exE conjE)
  from demo_movie_record obtain rm where
    rm: "movie_entry demo_env demo_item (demo_details ''Action'') = Inr (Some rm)" by blast
  from demo_tv_record obtain rt where
    rt: "tv_entry demo_env demo_item (demo_details ''Action'') = Inr (Some rt)" by blast
  from demo_counts d rm rt m t have "movies_data = [rm]" "tv_data = [rt]" by simp_all
  with d m t n have "data_json (snd (run demo_env state0)) = Some doc \<and>
      subscript doc ''movies'' = Inr (JList [rm]) \<and>
      subscript doc ''tv_shows'' = Inr (JList [rt]) \<and>
      ebind (subscript doc ''metadata'') (\<lambda>m. subscript m ''total_items'') = Inr (JInt 2)"
    by simp
  then have "\<exists>doc m t.
      data_json (snd (run demo_env state0)) = Some doc \<and>
      subscript doc ''movies'' = Inr (JList [m]) \<and>
      subscript doc ''tv_shows'' = Inr (JList [t]) \<and>
      ebind (subscript doc ''metadata'') (\<lambda>m. subscript m ''total_items'') = Inr (JInt 2)"
    by (intro exI [of _ doc] exI [of _ rm] exI [of _ rt])
  with demo_run show ?thesis by simp
qed

section \<open>Missing fields of a discovered item\<close>

lemma ebind_Inl: "m = Inl err \<Longrightarrow> ebind m f = Inl err"
  by (simp add: ebind_def)
























section \<open>Failing requests and the output file\<close>

lemma clean_aborted: "clean e n d s \<Longrightarrow> aborted e n d err s"
  unfolding clean_def aborted_def by blast

lemma tripleI:
  assumes "\<And>s x s'. clean e n d s \<Longrightarrow> p s = (Inr x, s') \<Longrightarrow> Q x s'"
      and "\<And>s err s'. clean e n d s \<Longrightarrow> p s = (Inl err, s') \<Longrightarrow> aborted e n d err s'"
  shows "triple e n d p Q"
  unfolding triple_def using assms by (auto split: sum.splits)

lemma tripleD_Inr: "triple e n d p Q \<Longrightarrow> clean e n d s \<Longrightarrow> p s = (Inr x, s') \<Longrightarrow> Q x s'"
  unfolding triple_def by fastforce

lemma tripleD_Inl:
  "triple e n d p Q \<Longrightarrow> clean e n d s \<Longrightarrow> p s = (Inl err, s') \<Longrightarrow> aborted e n d err s'"
  unfolding triple_def by fastforce

lemma triple_lift: "triple e n d (lift r) (\<lambda>x. clean e n d)"
  by (rule tripleI) (auto simp: lift_def clean_aborted)

lemma triple_bind:
  assumes m: "triple e n d m (\<lambda>x. clean e n d)" and f: "\<And>x. triple e n d (f x) Q"
  shows "triple e n d (bind m f) Q"
proof (rule tripleI)
  fix s x s' assume c: "clean e n d s" and b: "bind m f s = (Inr x, s')"
  obtain r s1 where ms: "m s = (r, s1)" by (cases "m s")
  with b obtain y where r: "r = Inr y" and fy: "f y s1 = (Inr x, s')"
    by (cases r) (auto simp: bind_def)
  from tripleD_Inr [OF m c ms [unfolded r]] have "clean e n d s1" .
  from tripleD_Inr [OF f this fy] show "Q x s'" .
next
  fix s err s' assume c: "clean e n d s" and b: "bind m f s = (Inl err, s')"
  obtain r s1 where ms: "m s = (r, s1)" by (cases "m s")
  show "aborted e n d err s'"
  proof (cases r)
    case (Inl err1)
    with b ms have "err1 = err" "s1 = s'" by (simp_all add: bind_def)
    with tripleD_Inl [OF m c ms [unfolded Inl]] show ?thesis by simp
  next
    case (Inr y)
    with b ms have fy: "f y s1 = (Inl err, s')" by (simp add: bind_def)
    from tripleD_Inr [OF m c ms [unfolded Inr]] have "clean e n d s1" .
    from tripleD_Inl [OF f this fy] show ?thesis .
  qed
qed

lemma get_state:
  "sent (snd (rate_limited_get e url s)) = sent s @ [url] \<and>
   data_json (snd (rate_limited_get e url s)) = data_json s"
  by (simp add: rate_limited_get_def acquire_def Let_def split: http_result.splits option.splits)

lemma get_Inr_ok:
  "rate_limited_get e url s = (Inr x, s') \<Longrightarrow> \<not> failing (respond e (length (sent s)) url)"
  by (auto simp: rate_limited_get_def Let_def failing_def split: http_result.splits option.splits if_splits)

lemma get_Inl_kind:
  "rate_limited_get e url s = (Inl err, s') \<Longrightarrow> failing (respond e (length (sent s)) url) \<Longrightarrow>
   err = HTTPError \<or> err = ConnectionError"
  by (auto simp: rate_limited_get_def Let_def failing_def split: http_result.splits option.splits if_splits)

lemma triple_get: "triple e n d (rate_limited_get e url) (\<lambda>x. clean e n d)"
proof (rule tripleI)
  fix s x s' assume c: "clean e n d s" and g: "rate_limited_get e url s = (Inr x, s')"
  from get_state [of e url s] g have st: "sent s' = sent s @ [url]" "data_json s' = data_json s"
    by simp_all
  from get_Inr_ok [OF g] have ok: "\<not> failing (respond e (length (sent s)) url)" .
  show "clean e n d s'"
    unfolding clean_def
  proof (intro conjI allI impI)
    show "data_json s' = d" using st c by (simp add: clean_def)
  next
    fix i assume i: "n \<le> i \<and> i < length (sent s')"
    show "\<not> failing (respond e i (sent s' ! i))"
    proof (cases "i < length (sent s)")
      case True
      with c i st show ?thesis by (simp add: clean_def nth_append)
    next
      case False
      with i st have "i = length (sent s)" by simp
      with ok st show ?thesis by (simp add: nth_append)
    qed
  qed
next
  fix s err s' assume c: "clean e n d s" and g: "rate_limited_get e url s = (Inl err, s')"
  from get_state [of e url s] g have st: "sent s' = sent s @ [url]" "data_json s' = data_json s"
    by simp_all
  show "aborted e n d err s'"
    unfolding aborted_def
  proof (intro conjI allI impI)
    show "data_json s' = d" using st c by (simp add: clean_def)
  next
    fix i assume i: "n \<le> i \<and> i < length (sent s') \<and> failing (respond e i (sent s' ! i))"
    have last: "i = length (sent s)"
    proof (rule ccontr)
      assume "i \<noteq> length (sent s)"
      with i st have lt: "i < length (sent s)" by simp
      with c i have "\<not> failing (respond e i (sent s ! i))" by (simp add: clean_def)
      with i st lt show False by (simp add: nth_append)
    qed
    then show "Suc i = length (sent s')" using st by simp
    from i last st have "failing (respond e (length (sent s)) url)" by (simp add: nth_append)
    from get_Inl_kind [OF g this] show "err = HTTPError \<or> err = ConnectionError" .
  qed
qed


lemma triple_fetch_loop:
  "triple e n d (fetch_loop e url max_pages page tp acc) (\<lambda>x. clean e n d)"
proof (rule tripleI)
  fix s x s'
  show "clean e n d s \<Longrightarrow> fetch_loop e url max_pages page tp acc s = (Inr x, s') \<Longrightarrow> clean e n d s'"
  proof (induction e url max_pages page tp acc s rule: fetch_loop.induct)
    case (1 e url max_pages page tp acc s)
    show ?case
    proof (cases "loop_test page tp max_pages")
      case (Inl err)
      with "1.prems" show ?thesis by (simp add: fetch_loop.simps)
    next
      case (Inr continue)
      show ?thesis
      proof (cases continue)
        case False
        with Inr "1.prems" show ?thesis by (simp add: fetch_loop.simps)
      next
        case True
        obtain r s1 where get: "rate_limited_get e (page_url url page) s = (r, s1)"
          by (cases "rate_limited_get e (page_url url page) s")
        with Inr True "1.prems" obtain data where r: "r = Inr data"
          by (cases r) (simp_all add: fetch_loop.simps)
        with Inr True "1.prems" get obtain acc1 tp1 where ab: "absorb data acc tp = Inr (acc1, tp1)"
          by (cases "absorb data acc tp") (auto simp add: fetch_loop.simps)
        with Inr True "1.prems" get r
        have rec: "fetch_loop e url max_pages (page + 1) tp1 acc1 s1 = (Inr x, s')"
          by (simp add: fetch_loop.simps)
        from tripleD_Inr [OF triple_get "1.prems"(1) get [unfolded r]] have c1: "clean e n d s1" .
        from "1.IH" [OF Inr True get [symmetric] r ab refl c1 rec] show ?thesis .
      qed
    qed
  qed
next
  fix s err s'
  show "clean e n d s \<Longrightarrow> fetch_loop e url max_pages page tp acc s = (Inl err, s')
        \<Longrightarrow> aborted e n d err s'"
  proof (induction e url max_pages page tp acc s rule: fetch_loop.induct)
    case (1 e url max_pages page tp acc s)
    show ?case
    proof (cases "loop_test page tp max_pages")
      case (Inl err1)
      with "1.prems" have "s' = s" by (simp add: fetch_loop.simps)
      with "1.prems"(1) show ?thesis by (simp add: clean_aborted)
    next
      case (Inr continue)
      show ?thesis
      proof (cases continue)
        case False
        with Inr "1.prems" show ?thesis by (simp add: fetch_loop.simps)
      next
        case True
        obtain r s1 where get: "rate_limited_get e (page_url url page) s = (r, s1)"
          by (cases "rate_limited_get e (page_url url page) s")
        show ?thesis
        proof (cases r)
          case (Inl err1)
          with Inr True "1.prems" get have "err1 = err" "s1 = s'" by (simp_all add: fetch_loop.simps)
          with tripleD_Inl [OF triple_get "1.prems"(1) get [unfolded Inl]] show ?thesis by simp
        next
          case r: (Inr data)
          from tripleD_Inr [OF triple_get "1.prems"(1) get [unfolded r]] have c1: "clean e n d s1" .
          show ?thesis
          proof (cases "absorb data acc tp")
            case (Inl err1)
            with Inr True "1.prems" get r have "s1 = s'" by (simp add: fetch_loop.simps)
            with c1 show ?thesis by (simp add: clean_aborted)
          next
            case ab: (Inr p)
            obtain acc1 tp1 where p: "p = (acc1, tp1)" by (cases p)
            with ab Inr True "1.prems" get r
            have rec: "fetch_loop e url max_pages (page + 1) tp1 acc1 s1 = (Inl err, s')"
              by (simp add: fetch_loop.simps)
            from "1.IH" [OF Inr True get [symmetric] r ab [unfolded p] refl c1 rec] show ?thesis .
          qed
        qed
      qed
    qed
  qed
qed

lemma triple_fetch_all_pages:
  "triple e n d (fetch_all_pages e url max_pages) (\<lambda>x. clean e n d)"
  unfolding fetch_all_pages_def by (rule triple_fetch_loop)

lemma triple_item_step: "triple e n d (item_step e media entry item) (\<lambda>x. clean e n d)"
  unfolding item_step_def fetch_item_details_def
  by (intro triple_bind triple_lift triple_get)

lemma triple_for_items:
  assumes "\<And>item. triple e n d (step item) (\<lambda>x. clean e n d)"
  shows "triple e n d (for_items step items out) (\<lambda>x. clean e n d)"
proof (rule tripleI)
  fix s x s'
  show "clean e n d s \<Longrightarrow> for_items step items out s = (Inr x, s') \<Longrightarrow> clean e n d s'"
  proof (induction items arbitrary: out s)
    case Nil
    then show ?case by simp
  next
    case (Cons item items)
    obtain r s1 where st: "step item s = (r, s1)" by (cases "step item s")
    with Cons.prems obtain y where r: "r = Inr y" by (cases r) auto
    from tripleD_Inr [OF assms Cons.prems(1) st [unfolded r]] have c1: "clean e n d s1" .
    show ?case
    proof (cases y)
      case None
      with Cons.prems st r have "for_items step items out s1 = (Inr x, s')" by simp
      from Cons.IH [OF c1 this] show ?thesis .
    next
      case (Some rec)
      with Cons.prems st r have "for_items step items (out @ [rec]) s1 = (Inr x, s')" by simp
      from Cons.IH [OF c1 this] show ?thesis .
    qed
  qed
next
  fix s err s'
  show "clean e n d s \<Longrightarrow> for_items step items out s = (Inl err, s') \<Longrightarrow> aborted e n d err s'"
  proof (induction items arbitrary: out s)
    case Nil
    then show ?case by simp
  next
    case (Cons item items)
    obtain r s1 where st: "step item s = (r, s1)" by (cases "step item s")
    show ?case
    proof (cases r)
      case (Inl err1)
      with Cons.prems st have "err1 = err" "s1 = s'" by simp_all
      with tripleD_Inl [OF assms Cons.prems(1) st [unfolded Inl]] show ?thesis by simp
    next
      case r: (Inr y)
      from tripleD_Inr [OF assms Cons.prems(1) st [unfolded r]] have c1: "clean e n d s1" .
      show ?thesis
      proof (cases y)
        case None
        with Cons.prems st r have "for_items step items out s1 = (Inl err, s')" by simp
        from Cons.IH [OF c1 this] show ?thesis .
      next
        case (Some rec)
        with Cons.prems st r have "for_items step items (out @ [rec]) s1 = (Inl err, s')" by simp
        from Cons.IH [OF c1 this] show ?thesis .
      qed
    qed
  qed
qed


lemma triple_write:
  "triple e n d (\<lambda>s'. write_output (doc s') s')
     (\<lambda>x s'. \<forall>i. n \<le> i \<and> i < length (sent s') \<longrightarrow> \<not> failing (respond e i (sent s' ! i)))"
  by (rule tripleI) (auto simp: write_output_def clean_def)

lemma run_outcome:
  assumes c: "clean e n d s" and r: "run e s = (r, s')"
  shows "case r of
           Inr x \<Rightarrow> (\<forall>i. n \<le> i \<and> i < length (sent s') \<longrightarrow> \<not> failing (respond e i (sent s' ! i)))
         | Inl err \<Rightarrow> aborted e n d err s'"
proof (cases "token_set e")
  case False
  with r have "r = Inl ValueError" "s' = s" by (simp_all add: run_def)
  with c show ?thesis by (simp add: clean_aborted)
next
  case True
  have t: "triple e n d
     (bind (fetch_all_pages e movies_url MAX_PAGES_PER_TYPE) (\<lambda>movies.
        bind (for_items (movie_step e) movies []) (\<lambda>movies_data.
        bind (fetch_all_pages e tv_url MAX_PAGES_PER_TYPE) (\<lambda>tv_shows.
        bind (for_items (tv_step e) tv_shows []) (\<lambda>tv_data.
          (\<lambda>s'. write_output (output_data e (clock s) (clock s') movies_data tv_data) s'))))))
     (\<lambda>x s'. \<forall>i. n \<le> i \<and> i < length (sent s') \<longrightarrow> \<not> failing (respond e i (sent s' ! i)))"
    unfolding movie_step_def tv_step_def
    by (intro triple_bind triple_fetch_all_pages triple_for_items triple_item_step triple_write)
  from True r have "bind (fetch_all_pages e movies_url MAX_PAGES_PER_TYPE) (\<lambda>movies.
        bind (for_items (movie_step e) movies []) (\<lambda>movies_data.
        bind (fetch_all_pages e tv_url MAX_PAGES_PER_TYPE) (\<lambda>tv_shows.
        bind (for_items (tv_step e) tv_shows []) (\<lambda>tv_data.
          (\<lambda>s'. write_output (output_data e (clock s) (clock s') movies_data tv_data) s'))))) s
      = (r, s')"
    by (simp add: run_def Let_def)
  with t c show ?thesis unfolding triple_def by blast
qed

text \<open>
  Claim C4, as amended. If a request of the run meets a transport failure or a status from
  400 to 599, it is the last request the run sends, the run ends with the error of that
  request, and the output file is as it was before the run. Whatever the exception that
  ends a run, the file is untouched; the file changes only in a run that completes, and
  then it is written after both categories have been fetched and processed.
\<close>

theorem no_partial_output:
  assumes "run e s = (r, s')"
  shows "(\<forall>i. length (sent s) \<le> i \<and> i < length (sent s') \<and>
             failing (respond e i (sent s' ! i)) \<longrightarrow>
           Suc i = length (sent s') \<and> (r = Inl HTTPError \<or> r = Inl ConnectionError) \<and>
           data_json s' = data_json s) \<and>
         (\<forall>err. r = Inl err \<longrightarrow> data_json s' = data_json s) \<and>
         (data_json s' \<noteq> data_json s \<longrightarrow> r = Inr ()) \<and>
         (r = Inr () \<longrightarrow>
           (\<exists>movies s1 movies_data s2 tv_shows s3 tv_data s4.
              fetch_all_pages e movies_url MAX_PAGES_PER_TYPE s = (Inr movies, s1) \<and>
              for_items (movie_step e) movies [] s1 = (Inr movies_data, s2) \<and>
              fetch_all_pages e tv_url MAX_PAGES_PER_TYPE s2 = (Inr tv_shows, s3) \<and>
              for_items (tv_step e) tv_shows [] s3 = (Inr tv_data, s4) \<and>
              s' = s4\<lparr>data_json := Some (output_data e (clock s) (clock s4) movies_data tv_data)\<rparr>))"
proof -
  have c: "clean e (length (sent s)) (data_json s) s" unfolding clean_def by auto
  note o = run_outcome [OF c assms]
  have p1: "\<forall>i. length (sent s) \<le> i \<and> i < length (sent s') \<and>
             failing (respond e i (sent s' ! i)) \<longrightarrow>
           Suc i = length (sent s') \<and> (r = Inl HTTPError \<or> r = Inl ConnectionError) \<and>
           data_json s' = data_json s"
  proof (cases r)
    case (Inl err)
    with o have "aborted e (length (sent s)) (data_json s) err s'" by simp
    with Inl show ?thesis unfolding aborted_def by blast
  next
    case (Inr x)
    with o show ?thesis by simp
  qed
  have p2: "\<forall>err. r = Inl err \<longrightarrow> data_json s' = data_json s"
  proof (intro allI impI)
    fix err assume "r = Inl err"
    with o have "aborted e (length (sent s)) (data_json s) err s'" by simp
    then show "data_json s' = data_json s" by (simp add: aborted_def)
  qed
  have p3: "data_json s' \<noteq> data_json s \<longrightarrow> r = Inr ()"
    using p2 by (cases r) auto
  have p4: "r = Inr () \<longrightarrow>
           (\<exists>movies s1 movies_data s2 tv_shows s3 tv_data s4.
              fetch_all_pages e movies_url MAX_PAGES_PER_TYPE s = (Inr movies, s1) \<and>
              for_items (movie_step e) movies [] s1 = (Inr movies_data, s2) \<and>
              fetch_all_pages e tv_url MAX_PAGES_PER_TYPE s2 = (Inr tv_shows, s3) \<and>
              for_items (tv_step e) tv_shows [] s3 = (Inr tv_data, s4) \<and>
              s' = s4\<lparr>data_json := Some (output_data e (clock s) (clock s4) movies_data tv_data)\<rparr>)"
  proof
    assume "r = Inr ()"
    with assms have "run e s = (Inr (), s')" by simp
    then show "\<exists>movies s1 movies_data s2 tv_shows s3 tv_data s4.
              fetch_all_pages e movies_url MAX_PAGES_PER_TYPE s = (Inr movies, s1) \<and>
              for_items (movie_step e) movies [] s1 = (Inr movies_data, s2) \<and>
              fetch_all_pages e tv_url MAX_PAGES_PER_TYPE s2 = (Inr tv_shows, s3) \<and>
              for_items (tv_step e) tv_shows [] s3 = (Inr tv_data, s4) \<and>
              s' = s4\<lparr>data_json := Some (output_data e (clock s) (clock s4) movies_data tv_data)\<rparr>"
      by (rule run_Inr)
  qed
  show ?thesis by (intro conjI) (rule p1 p2 p3 p4)+
qed

lemma failing_run:
  "fst (run failing_env state_old) = Inl HTTPError \<and>
   sent (snd (run failing_env state_old))
     = [page_url movies_url 1, details_url failing_env (JInt 7) ''movie'']"
  by code_simp

theorem no_partial_output_witness:
  "fst (run failing_env state_old) = Inl HTTPError \<and>
   sent (snd (run failing_env state_old))
     = [page_url movies_url 1, details_url failing_env (JInt 7) ''movie''] \<and>
   failing (respond failing_env 1 (details_url failing_env (JInt 7) ''movie'')) \<and>
   data_json (snd (run failing_env state_old)) = Some (JStr ''old'')"
proof -
  have h: "run failing_env state_old = (fst (run failing_env state_old), snd (run failing_env state_old))"
    by simp
  have f: "failing (respond failing_env 1 (details_url failing_env (JInt 7) ''movie''))"
    by (simp add: failing_def failing_env_def raise_for_status_def)
  from no_partial_output [OF h] failing_run
  have "data_json (snd (run failing_env state_old)) = data_json state_old" by blast
  then have "data_json (snd (run failing_env state_old)) = Some (JStr ''old'')"
    by (simp add: state_old_def)
  with failing_run f show ?thesis by simp
qed

text \<open>
  For every status outside 200 to 299, as the claim was first stated, this fails:
  \<^verbatim>\<open>raise_for_status\<close> lets a status 300 pass, so a server answering 300 with a JSON
  body is read like any other and the run completes and writes the file.
\<close>

theorem no_partial_output_counterexample:
  "respond choices_env 0 (page_url movies_url 1) = Response 300 (Some empty_page) \<and>
   respond choices_env 1 (page_url tv_url 1) = Response 300 (Some empty_page) \<and>
   sent (snd (run choices_env state_old)) = [page_url movies_url 1, page_url tv_url 1] \<and>
   fst (run choices_env state_old) = Inr () \<and>
   data_json (snd (run choices_env state_old)) \<noteq> data_json state_old"
proof -
  have a: "respond choices_env 0 (page_url movies_url 1) = Response 300 (Some empty_page) \<and>
   respond choices_env 1 (page_url tv_url 1) = Response 300 (Some empty_page)"
    by (simp add: choices_env_def)
  have b: "sent (snd (run choices_env state_old)) = [page_url movies_url 1, page_url tv_url 1]"
    by code_simp
  have c: "fst (run choices_env state_old) = Inr ()"
    by code_simp
  have d: "data_json (snd (run choices_env state_old)) \<noteq> data_json state_old"
    by code_simp
  from a b c d show ?thesis by simp
qed

end
